theory Spec2Isabelle
  imports Complex_Main "HOL-Library.Word" "HOL-Library.Finite_Map"
begin

unbundle bit_operations_syntax

text \<open>
  Verification models of the serial biosensor monitor: the frame decoders
  (\<^verbatim>\<open>01_Learn/DataDecoders.py\<close> and the serial page of
  \<^verbatim>\<open>03_ModifyCGMPage/01_ReadSerial.py\<close>), the configuration loaders
  (\<^verbatim>\<open>01_Learn/config.py\<close> and the one embedded in the final monitor), the
  filtering pipeline, the receive worker's polling back-off and the CV-cycle segmentation
  (\<^verbatim>\<open>01_Learn/05_ReadSerial_14.py\<close>).  All definitions come first, the
  lemmas and theorems follow.
\<close>

section \<open>Rounding of Python floats\<close>

text \<open>
  A Python float is an IEEE 754 binary64 number, and every arithmetic operation on floats
  returns the exact result rounded to the nearest binary64 number, ties going to the even
  significand.  The model computes with exact rationals and rounds after every operation
  with \<open>round_double\<close>.  The filters take the rounding function as a parameter \<open>rnd\<close>,
  so that \<open>rnd = round_double\<close> gives the arithmetic of Python and \<open>rnd = (\<lambda>x. x)\<close>
  gives exact arithmetic.  \<open>round_double\<close> covers the normal range (magnitudes from
  \<open>2 ^ - 1022\<close> up to the largest finite float); overflow, subnormal numbers, infinities
  and NaN are outside the model.  An integer below \<open>2 ^ 53\<close> converts to a float without
  rounding.
\<close>

definition pow2 :: "int \<Rightarrow> rat" where
  "pow2 e = (if 0 \<le> e then 2 ^ nat e else 1 / 2 ^ nat (- e))"

text \<open>The number of binary digits of a positive integer.\<close>

function bit_length :: "int \<Rightarrow> int" where
  "bit_length n = (if n \<le> 0 then 0 else 1 + bit_length (n div 2))"
  by pat_completeness auto
termination
  by (relation "measure nat") auto

declare bit_length.simps [simp del]

text \<open>For \<open>x > 0\<close>, the exponent \<open>e\<close> with \<open>2 ^ e \<le> x < 2 ^ (e + 1)\<close>.\<close>

definition ilog2 :: "rat \<Rightarrow> int" where
  "ilog2 x =
     (if 1 \<le> x then bit_length \<lfloor>x\<rfloor> - 1 else - bit_length (\<lceil>1 / x\<rceil> - 1))"

text \<open>The nearest integer, a tie going to the even neighbour.\<close>

definition round_half_even :: "rat \<Rightarrow> int" where
  "round_half_even m =
     (let f = \<lfloor>m\<rfloor>; r = m - of_int f
      in if r < 1 / 2 then f
         else if 1 / 2 < r then f + 1
         else if even f then f else f + 1)"

text \<open>The nearest binary64 number: with \<open>2 ^ e \<le> \<bar>x\<bar> < 2 ^ (e + 1)\<close> the spacing of the
  floats around \<open>x\<close> is \<open>2 ^ (e - 52)\<close>, and \<open>x\<close> is rounded to a multiple of it.\<close>

definition round_double :: "rat \<Rightarrow> rat" where
  "round_double x =
     (if x = 0 then 0
      else
        let a = \<bar>x\<bar>;
            e = ilog2 a;
            u = pow2 (e - 52);
            n = round_half_even (a / u)
        in sgn x * of_int n * u)"

section \<open>Binary frame decoder (DataDecoders.py, BinaryFrameDecoder)\<close>

text \<open>
  A received byte is a Python int in 0..255, modelled as an 8-bit word.  The voltage is
  computed in floats: in \<open>voltage_v = (code12 / 4095.0) * 3.3\<close> the quotient is rounded,
  the literal \<open>3.3\<close> is the float nearest to \<open>33 / 10\<close>, and the product is rounded.
\<close>

type_synonym byte = "8 word"

definition FRAME_LEN :: nat where "FRAME_LEN = 15"
definition HEAD :: byte where "HEAD = 0xA5"
definition TAIL :: byte where "TAIL = 0x5A"

text \<open>\<open>struct.unpack\<close> of an unsigned little-endian field: the first byte is the least
  significant one.\<close>

fun le_uint :: "byte list \<Rightarrow> nat" where
  "le_uint [] = 0"
| "le_uint (b # bs) = unat b + 256 * le_uint bs"

text \<open>The dictionary handed to \<open>on_frame_decoded\<close>, with its five fixed keys.\<close>

record decoded_data =
  t :: nat
  voltage :: rat
  uric :: nat
  ascorbic :: nat
  glucose :: nat

text \<open>\<open>struct.unpack("<IHHHH", payload)\<close> followed by the construction of the dictionary.
  The payload always has 12 bytes here, so the unpacking cannot raise.\<close>

definition unpack_payload :: "byte list \<Rightarrow> decoded_data" where
  "unpack_payload payload =
     (let ms = le_uint (take 4 payload);
          uric_raw = le_uint (take 2 (drop 4 payload));
          ascorbic_raw = le_uint (take 2 (drop 6 payload));
          glucose_raw = le_uint (take 2 (drop 8 payload));
          code12 = le_uint (take 2 (drop 10 payload));
          voltage_v = round_double (round_double (of_nat code12 / 4095) * round_double (33 / 10))
      in \<lparr>t = ms, voltage = voltage_v, uric = uric_raw, ascorbic = ascorbic_raw,
          glucose = glucose_raw\<rparr>)"

text \<open>One pass through the body of the \<open>while\<close> loop of \<open>feed\<close>, entered with at least
  \<open>FRAME_LEN\<close> buffered bytes: the frame handed to the callback (if any) and the buffer
  afterwards.  \<open>buffer.pop(0)\<close> is \<open>drop 1\<close>, \<open>del buffer[:FRAME_LEN]\<close> is
  \<open>drop FRAME_LEN\<close>.\<close>

definition scan_step :: "byte list \<Rightarrow> decoded_data option \<times> byte list" where
  "scan_step buf =
     (if buf ! 0 \<noteq> HEAD then (None, drop 1 buf)
      else if buf ! (FRAME_LEN - 1) \<noteq> TAIL then (None, drop 1 buf)
      else
        let frame = take FRAME_LEN buf;
            payload = take 12 (drop 1 frame);
            calc_sum = sum_list (map unat payload) AND 0xFF;
            recv_sum = unat (frame ! 13)
        in if calc_sum = recv_sum
           then (Some (unpack_payload payload), drop FRAME_LEN buf)
           else (None, drop 1 buf))"

text \<open>The \<open>while len(self.buffer) >= self.FRAME_LEN\<close> loop.  The frames passed to the
  callback are collected in order.  The loop is defined as a partial function: \<open>None\<close>
  is the value of a run that never leaves the loop.\<close>

partial_function (option) feed_loop ::
  "byte list \<Rightarrow> decoded_data list \<Rightarrow> (decoded_data list \<times> byte list) option" where
  "feed_loop buf emitted =
     (if FRAME_LEN \<le> length buf
      then (case scan_step buf of
              (None, buf') \<Rightarrow> feed_loop buf' emitted
            | (Some d, buf') \<Rightarrow> feed_loop buf' (emitted @ [d]))
      else Some (emitted, buf))"

record binary_decoder =
  buffer :: "byte list"

definition new_binary_decoder :: binary_decoder where
  "new_binary_decoder = \<lparr>buffer = []\<rparr>"

definition feed :: "binary_decoder \<Rightarrow> byte list \<Rightarrow> (decoded_data list \<times> binary_decoder) option" where
  "feed dec data =
     map_option (\<lambda>(emitted, buf). (emitted, dec\<lparr>buffer := buf\<rparr>))
       (feed_loop (buffer dec @ data) [])"

definition reset :: "binary_decoder \<Rightarrow> binary_decoder" where
  "reset dec = dec\<lparr>buffer := []\<rparr>"

section \<open>Binary path of the serial page (01_ReadSerial.py, SerialPage.process_binary_buffer)\<close>

text \<open>The final monitor repeats the decoder inline.  Its dictionary carries the time in
  seconds (\<open>ms / 1000.0\<close>, a rounded float division) and a wall-clock \<open>receive_time\<close> string; the wall clock is
  outside the model and the field is left out.\<close>

record data_dict =
  dd_t :: rat
  dd_voltage :: rat
  dd_uric :: nat
  dd_ascorbic :: nat
  dd_glucose :: nat

definition unpack_data_dict :: "byte list \<Rightarrow> data_dict" where
  "unpack_data_dict payload =
     (let ms = le_uint (take 4 payload);
          uric = le_uint (take 2 (drop 4 payload));
          ascorbic = le_uint (take 2 (drop 6 payload));
          glucose = le_uint (take 2 (drop 8 payload));
          code12 = le_uint (take 2 (drop 10 payload));
          voltage_v = round_double (round_double (of_nat code12 / 4095) * round_double (33 / 10))
      in \<lparr>dd_t = round_double (of_nat ms / 1000), dd_voltage = voltage_v, dd_uric = uric,
          dd_ascorbic = ascorbic, dd_glucose = glucose\<rparr>)"

definition binary_buffer_step :: "byte list \<Rightarrow> data_dict option \<times> byte list" where
  "binary_buffer_step buf =
     (if buf ! 0 \<noteq> HEAD then (None, drop 1 buf)
      else if buf ! (FRAME_LEN - 1) \<noteq> TAIL then (None, drop 1 buf)
      else
        let frame_bytes = take FRAME_LEN buf;
            payload = take 12 (drop 1 frame_bytes);
            calc_sum = sum_list (map unat payload) AND 0xFF;
            recv_sum = unat (frame_bytes ! 13)
        in if calc_sum = recv_sum
           then (Some (unpack_data_dict payload), drop FRAME_LEN buf)
           else (None, drop 1 buf))"

partial_function (option) binary_buffer_loop ::
  "byte list \<Rightarrow> data_dict list \<Rightarrow> (data_dict list \<times> byte list) option" where
  "binary_buffer_loop buf emitted =
     (if FRAME_LEN \<le> length buf
      then (case binary_buffer_step buf of
              (None, buf') \<Rightarrow> binary_buffer_loop buf' emitted
            | (Some d, buf') \<Rightarrow> binary_buffer_loop buf' (emitted @ [d]))
      else Some (emitted, buf))"

text \<open>\<open>on_data_received\<close> in binary mode: \<open>self.binary_buffer.extend(data)\<close>, then
  \<open>process_binary_buffer()\<close>.  The result is the list of emitted dictionaries and the
  new \<open>binary_buffer\<close>.\<close>

definition process_binary_buffer ::
  "byte list \<Rightarrow> byte list \<Rightarrow> (data_dict list \<times> byte list) option" where
  "process_binary_buffer binary_buffer data = binary_buffer_loop (binary_buffer @ data) []"

section \<open>JSON frame decoder (DataDecoders.py, JsonFrameDecoder)\<close>

text \<open>
  Text is a list of characters.  A character of the model is a byte of the UTF-8 form of
  the Python string; the characters the scanners look for are ASCII, and no byte of a
  longer UTF-8 sequence is ASCII, so scanning bytes finds the same places as scanning code
  points.  The models start from the decoded text.

  \<open>json.loads\<close> belongs to the Python library, not to this repository: it is the
  parameter \<open>loads\<close>, which returns \<open>None\<close> where \<open>json.loads\<close> raises
  \<open>JSONDecodeError\<close>.  The callback is taken not to raise.
\<close>

text \<open>\<open>str.find\<close> of a single character: the index of its first occurrence.\<close>

fun find_char :: "char \<Rightarrow> string \<Rightarrow> nat option" where
  "find_char c [] = None"
| "find_char c (x # xs) =
     (if x = c then Some 0 else map_option Suc (find_char c xs))"

text \<open>The \<open>for i in range(start, len(self.buffer))\<close> loop: \<open>match_brace cs depth i\<close>
  scans the characters \<open>cs\<close> that begin at index \<open>i\<close> with the running \<open>depth\<close>,
  and returns \<open>end\<close> (\<open>None\<close> for \<open>-1\<close>).\<close>

fun match_brace :: "string \<Rightarrow> int \<Rightarrow> nat \<Rightarrow> nat option" where
  "match_brace [] depth i = None"
| "match_brace (c # cs) depth i =
     (let depth' = (if c = CHR ''{'' then depth + 1
                    else if c = CHR ''}'' then depth - 1 else depth)
      in if depth' = 0 then Some i else match_brace cs depth' (i + 1))"

text \<open>The \<open>while "}" in self.buffer\<close> loop.  The result is the list of objects handed to
  the callback and the buffer left behind.\<close>

function json_feed_loop :: "(string \<Rightarrow> 'obj option) \<Rightarrow> string \<Rightarrow> 'obj list \<Rightarrow> 'obj list \<times> string" where
  "json_feed_loop loads buf emitted =
     (if CHR ''}'' \<in> set buf then
        (case find_char CHR ''{'' buf of
           None \<Rightarrow> (emitted, [])
         | Some start \<Rightarrow>
             (case match_brace (drop start buf) 0 start of
                Some end' \<Rightarrow>
                  let json_str = take (end' + 1 - start) (drop start buf);
                      buf' = drop (end' + 1) buf
                  in (case loads json_str of
                        Some obj \<Rightarrow> json_feed_loop loads buf' (emitted @ [obj])
                      | None \<Rightarrow> json_feed_loop loads buf' emitted)
              | None \<Rightarrow> (emitted, buf)))
      else (emitted, buf))"
  by pat_completeness auto
termination
  by (relation "measure (\<lambda>(loads, buf, emitted). length buf)")
    (auto dest: length_pos_if_in_set)

record json_decoder =
  text_buffer :: string

definition new_json_decoder :: json_decoder where
  "new_json_decoder = \<lparr>text_buffer = []\<rparr>"

definition json_feed ::
  "(string \<Rightarrow> 'obj option) \<Rightarrow> json_decoder \<Rightarrow> string \<Rightarrow> 'obj list \<times> json_decoder" where
  "json_feed loads dec text =
     (case json_feed_loop loads (text_buffer dec @ text) [] of
        (emitted, buf) \<Rightarrow> (emitted, dec\<lparr>text_buffer := buf\<rparr>))"

section \<open>JSON path of the serial page (01_ReadSerial.py, SerialPage.process_json_buffer)\<close>

text \<open>The variables of the scanning loop.\<close>

record scan_state =
  objs :: "(nat \<times> nat) list"
  start :: "nat option"
  depth :: nat
  in_str :: bool
  esc :: bool

definition scan_init :: scan_state where
  "scan_init = \<lparr>objs = [], start = None, depth = 0, in_str = False, esc = False\<rparr>"

text \<open>The body of \<open>for i, ch in enumerate(buf)\<close>.\<close>

definition scan_char :: "scan_state \<Rightarrow> nat \<times> char \<Rightarrow> scan_state" where
  "scan_char st ich =
     (case ich of (i, ch) \<Rightarrow>
        if in_str st then
          (if esc st then st\<lparr>esc := False\<rparr>
           else if ch = CHR 0x5C then st\<lparr>esc := True\<rparr>
           else if ch = CHR 0x22 then st\<lparr>in_str := False\<rparr>
           else st)
        else if ch = CHR 0x22 then st\<lparr>in_str := True\<rparr>
        else if ch = CHR ''{'' then
          (let st1 = (if depth st = 0 then st\<lparr>start := Some i\<rparr> else st)
           in st1\<lparr>depth := depth st1 + 1\<rparr>)
        else if ch = CHR ''}'' then
          (if depth st > 0 then
             (let st1 = st\<lparr>depth := depth st - 1\<rparr>
              in (case start st1 of
                    Some s \<Rightarrow> if depth st1 = 0 then st1\<lparr>objs := objs st1 @ [(s, i)]\<rparr> else st1
                  | None \<Rightarrow> st1))
           else st)
        else st)"

definition scan_buffer :: "string \<Rightarrow> scan_state" where
  "scan_buffer buf = foldl scan_char scan_init (enumerate 0 buf)"

text \<open>The second loop: each span is cut out and parsed; \<open>last_consumed\<close> is the end of
  the last span, parsed or not.\<close>

fun emit_spans :: "(string \<Rightarrow> 'obj option) \<Rightarrow> string \<Rightarrow> (nat \<times> nat) list \<Rightarrow> 'obj list" where
  "emit_spans loads buf [] = []"
| "emit_spans loads buf ((s, e) # spans) =
     (let json_str = take (e + 1 - s) (drop s buf)
      in (case loads json_str of
            Some d \<Rightarrow> d # emit_spans loads buf spans
          | None \<Rightarrow> emit_spans loads buf spans))"

text \<open>\<open>str.rfind\<close> of a single character: the index of its last occurrence.\<close>

definition rfind_char :: "char \<Rightarrow> string \<Rightarrow> nat option" where
  "rfind_char c s =
     (case find_char c (rev s) of None \<Rightarrow> None | Some k \<Rightarrow> Some (length s - 1 - k))"

definition process_json_buffer ::
  "(string \<Rightarrow> 'obj option) \<Rightarrow> string \<Rightarrow> 'obj list \<times> string" where
  "process_json_buffer loads buf =
     (if buf = [] then ([], buf)
      else
        let spans = objs (scan_buffer buf);
            emitted = emit_spans loads buf spans
        in if spans \<noteq> [] then (emitted, drop (snd (last spans) + 1) buf)
           else (case rfind_char CHR ''{'' buf of
                   Some idx \<Rightarrow> (emitted, drop idx buf)
                 | None \<Rightarrow> (emitted, [])))"

section \<open>The lexical shape of a JSON object\<close>

text \<open>
  What the scanners rely on is the lexical structure of JSON, not its whole grammar.
  Between its quotes a string holds plain characters (neither quote nor backslash) and
  escapes (a backslash followed by one character).  Outside strings, the text of a value
  is a sequence of plain characters (neither quote nor brace), strings, and brace pairs
  around such a sequence.  The text of every complete JSON object is an opening brace,
  such a sequence, and a closing brace.
\<close>

inductive string_body :: "string \<Rightarrow> bool" where
  sb_empty: "string_body []"
| sb_plain: "c \<noteq> CHR 0x22 \<Longrightarrow> c \<noteq> CHR 0x5C \<Longrightarrow> string_body s \<Longrightarrow> string_body (c # s)"
| sb_escape: "string_body s \<Longrightarrow> string_body (CHR 0x5C # c # s)"

inductive json_items :: "string \<Rightarrow> bool" where
  ji_empty: "json_items []"
| ji_plain: "c \<noteq> CHR 0x22 \<Longrightarrow> c \<noteq> CHR ''{'' \<Longrightarrow> c \<noteq> CHR ''}'' \<Longrightarrow> json_items r
             \<Longrightarrow> json_items (c # r)"
| ji_string: "string_body s \<Longrightarrow> json_items r \<Longrightarrow> json_items (CHR 0x22 # s @ CHR 0x22 # r)"
| ji_braces: "json_items inner \<Longrightarrow> json_items r
             \<Longrightarrow> json_items (CHR ''{'' # inner @ CHR ''}'' # r)"

definition object_text :: "string \<Rightarrow> bool" where
  "object_text txt = (\<exists>body. txt = CHR ''{'' # body @ [CHR ''}''] \<and> json_items body)"

section \<open>Python values and JSON documents\<close>

text \<open>
  The configuration loaders work on whatever \<open>json.loads\<close> returns, so the model has a
  type of Python values: the JSON values, and the members of \<open>FilterType\<close>, which the
  loaders store next to them.  A float is the rational number it denotes, so the floats
  of a document are finite: \<open>json.loads\<close> also accepts the tokens \<open>Infinity\<close> and \<open>NaN\<close>
  and literals beyond the float range, which JSON itself does not have, and a document
  holding those is outside the model.  A dictionary is a finite map from its keys.
\<close>

datatype FilterType = NONE | MOVING_AVG | MEDIAN | KALMAN

datatype pyval =
    PNone
  | PBool bool
  | PInt int
  | PFloat rat
  | PStr string
  | PList "pyval list"
  | PDict "(string, pyval) fmap"
  | PFilterType FilterType

text \<open>The members' values are Chinese labels, written here as their UTF-8 bytes.\<close>

fun filter_type_value :: "FilterType \<Rightarrow> string" where
  "filter_type_value NONE =
     [CHR 0xE6, CHR 0x97, CHR 0xA0, CHR 0xE6, CHR 0xBB, CHR 0xA4, CHR 0xE6, CHR 0xB3, CHR 0xA2]"
| "filter_type_value MOVING_AVG =
     [CHR 0xE6, CHR 0xBB, CHR 0x91, CHR 0xE5, CHR 0x8A, CHR 0xA8, CHR 0xE5, CHR 0xB9, CHR 0xB3,
      CHR 0xE5, CHR 0x9D, CHR 0x87]"
| "filter_type_value MEDIAN =
     [CHR 0xE4, CHR 0xB8, CHR 0xAD, CHR 0xE5, CHR 0x80, CHR 0xBC, CHR 0xE6, CHR 0xBB, CHR 0xA4,
      CHR 0xE6, CHR 0xB3, CHR 0xA2]"
| "filter_type_value KALMAN =
     [CHR 0xE5, CHR 0x8D, CHR 0xA1, CHR 0xE5, CHR 0xB0, CHR 0x94, CHR 0xE6, CHR 0x9B, CHR 0xBC,
      CHR 0xE6, CHR 0xBB, CHR 0xA4, CHR 0xE6, CHR 0xB3, CHR 0xA2]"

fun filter_type_name :: "FilterType \<Rightarrow> string" where
  "filter_type_name NONE = ''NONE''"
| "filter_type_name MOVING_AVG = ''MOVING_AVG''"
| "filter_type_name MEDIAN = ''MEDIAN''"
| "filter_type_name KALMAN = ''KALMAN''"

text \<open>The members in definition order, as \<open>for ft in FilterType\<close> visits them.\<close>

definition filter_types :: "FilterType list" where
  "filter_types = [NONE, MOVING_AVG, MEDIAN, KALMAN]"

datatype py_error =
  ValueError | TypeError | AttributeError | KeyError | ZeroDivisionError | OverflowError

text \<open>The content of the configuration file: text that \<open>json.loads\<close> rejects (or that
  cannot be read as UTF-8), or text that parses to a document.  A file state is \<open>None\<close>
  when the file does not exist.\<close>

datatype file_content = Unparseable string | Document pyval

type_synonym file_state = "file_content option"

section \<open>Configuration module (01_Learn/config.py)\<close>

text \<open>
  \<open>_safe_dataclass_update\<close> works by reflection (\<open>asdict\<close>, \<open>__dataclass_fields__\<close>,
  \<open>cls_type(**base)\<close>) and a dataclass does not check the types of its fields, so an
  instance is modelled as what \<open>asdict\<close> returns: the finite map from its field names to
  Python values.
\<close>

type_synonym dataclass_obj = "(string, pyval) fmap"

definition SerialConfig :: dataclass_obj where
  "SerialConfig = fmap_of_list
     [(''baudrate'', PInt 115200), (''databits'', PInt 8), (''stopbits'', PStr ''1''),
      (''parity'', PStr ''None''), (''auto_reconnect'', PBool False),
      (''bluetooth_force_9600'', PBool False), (''bluetooth_baudrate'', PInt 9600),
      (''is_bluetooth_hint'', PBool True), (''poll_interval_bluetooth_ms'', PInt 20),
      (''poll_interval_uart_ms'', PInt 5)]"

definition ProtocolConfig :: dataclass_obj where
  "ProtocolConfig = fmap_of_list
     [(''field_ms'', PStr ''Ms''), (''field_uric'', PStr ''Uric''),
      (''field_ascorbic'', PStr ''Ascorbic''), (''field_glucose'', PStr ''Glucose''),
      (''field_code12'', PStr ''Code12''), (''line_delimiter'', PStr [CHR 0x0A])]"

definition CalibrationConfig :: dataclass_obj where
  "CalibrationConfig = fmap_of_list
     [(''adc_value_per_volt'', PFloat (round_double (12409091 / 10000))),
      (''ref_volt'', PFloat (3 / 2)), (''time_gain'', PFloat 1000),
      (''uric_gain'', PFloat (round_double (20400 / 1000000))),
      (''ascorbic_gain'', PFloat (round_double (4700 / 1000000))),
      (''glucose_gain'', PFloat (round_double (200 / 1000)))]"

definition FilterConfig :: dataclass_obj where
  "FilterConfig = fmap_of_list
     [(''filter_type'', PFilterType MOVING_AVG), (''window_size'', PInt 5),
      (''kalman_Q'', PFloat (round_double (1 / 100))),
      (''kalman_R'', PFloat (round_double (1 / 10)))]"

definition SaveConfig :: dataclass_obj where
  "SaveConfig = fmap_of_list
     [(''auto_save'', PBool False), (''save_interval_ms'', PInt 1000),
      (''save_path'', PStr ''./serial_data'')]"

definition UIConfig :: dataclass_obj where
  "UIConfig = fmap_of_list
     [(''max_table_rows'', PInt 2000), (''ui_update_interval_ms'', PInt 50)]"

record AppConfig =
  serial :: dataclass_obj
  protocol :: dataclass_obj
  calib :: dataclass_obj
  filt :: dataclass_obj
  save :: dataclass_obj
  ui :: dataclass_obj

text \<open>\<open>cls()\<close>: every section at its defaults.\<close>

definition AppConfig_default :: AppConfig where
  "AppConfig_default = \<lparr>serial = SerialConfig, protocol = ProtocolConfig,
     calib = CalibrationConfig, filt = FilterConfig, save = SaveConfig, ui = UIConfig\<rparr>"

text \<open>\<open>d.get(key, default)\<close> on a dictionary.\<close>

definition dict_get :: "(string, pyval) fmap \<Rightarrow> string \<Rightarrow> pyval \<Rightarrow> pyval" where
  "dict_get d key dflt = (case fmlookup d key of Some v \<Rightarrow> v | None \<Rightarrow> dflt)"

text \<open>
  \<open>_safe_dataclass_update(current_obj, patch, cls_type)\<close>.  The class is given by the
  names of its fields, which are the keys of an instance.  \<open>clean\<close> keeps the allowed keys
  of the patch, \<open>base.update(clean)\<close> lets the patch win.  \<open>cls_type(**base)\<close> receives
  exactly the field names as keywords and checks no types, so the \<open>except\<close> branch that
  would return \<open>current_obj\<close> is never taken.
\<close>

definition safe_dataclass_update :: "dataclass_obj \<Rightarrow> pyval \<Rightarrow> dataclass_obj" where
  "safe_dataclass_update current_obj patch =
     (case patch of
        PDict p \<Rightarrow>
          let allowed = fmdom current_obj;
              clean = fmfilter (\<lambda>k. k |\<in>| allowed) p;
              base = current_obj ++\<^sub>f clean
          in base
      | _ \<Rightarrow> current_obj)"

text \<open>\<open>FilterType(ft)\<close> for a string: the member with that value; \<open>None\<close> stands for the
  \<open>ValueError\<close> of a string that is no member's value.\<close>

definition FilterType_of_value :: "string \<Rightarrow> FilterType option" where
  "FilterType_of_value s = find (\<lambda>ft. filter_type_value ft = s) filter_types"

text \<open>The \<open>filt\<close> part of \<open>_merge_inplace\<close>: a string \<open>filter_type\<close> is replaced by the
  member, or by the current member when the string names none.\<close>

definition coerce_filt_raw :: "dataclass_obj \<Rightarrow> pyval \<Rightarrow> pyval" where
  "coerce_filt_raw cur_filt filt_raw =
     (case filt_raw of
        PDict d \<Rightarrow>
          (case dict_get d ''filter_type'' PNone of
             PStr ft \<Rightarrow>
               (case FilterType_of_value ft of
                  Some m \<Rightarrow> PDict (fmupd ''filter_type'' (PFilterType m) d)
                | None \<Rightarrow>
                    PDict (fmupd ''filter_type'' (dict_get cur_filt ''filter_type'' PNone) d))
           | _ \<Rightarrow> PDict d)
      | _ \<Rightarrow> filt_raw)"

definition merge_inplace :: "AppConfig \<Rightarrow> (string, pyval) fmap \<Rightarrow> AppConfig" where
  "merge_inplace self raw =
     (let empty = PDict fmempty;
          self = self\<lparr>serial := safe_dataclass_update (serial self) (dict_get raw ''serial'' empty)\<rparr>;
          self = self\<lparr>protocol := safe_dataclass_update (protocol self) (dict_get raw ''protocol'' empty)\<rparr>;
          self = self\<lparr>calib := safe_dataclass_update (calib self) (dict_get raw ''calib'' empty)\<rparr>;
          filt_raw = coerce_filt_raw (filt self) (dict_get raw ''filt'' empty);
          self = self\<lparr>filt := safe_dataclass_update (filt self) filt_raw\<rparr>;
          self = self\<lparr>save := safe_dataclass_update (save self) (dict_get raw ''save'' empty)\<rparr>;
          self = self\<lparr>ui := safe_dataclass_update (ui self) (dict_get raw ''ui'' empty)\<rparr>
      in self)"

text \<open>\<open>AppConfig.load(path)\<close> of \<open>config.py\<close>.  Every exception of reading and parsing
  is caught; nothing is written.\<close>

definition load :: "file_state \<Rightarrow> AppConfig" where
  "load file =
     (case file of
        None \<Rightarrow> AppConfig_default
      | Some (Unparseable txt) \<Rightarrow> AppConfig_default
      | Some (Document (PDict raw)) \<Rightarrow> merge_inplace AppConfig_default raw
      | Some (Document _) \<Rightarrow> AppConfig_default)"

section \<open>Configuration embedded in the final monitor (03_ModifyCGMPage/01_ReadSerial.py)\<close>

text \<open>The names of this variant carry the suffix \<open>_m\<close> where they would clash with the
  ones of \<open>config.py\<close>.  Here the loader converts every field with \<open>int\<close>, \<open>float\<close>,
  \<open>bool\<close> or \<open>str\<close>, so the fields are typed.\<close>

record UIConfig_m =
  ui_update_interval_ms :: int
  max_table_rows :: int

record FilterConfig_m =
  filter_type :: FilterType
  window_size :: int
  kalman_Q :: rat
  kalman_R :: rat

record SaveConfig_m =
  auto_save :: bool
  save_interval_ms :: int
  save_path :: string

record ProtocolConfig_m =
  time_keys :: "string list"
  voltage_keys :: "string list"
  uric_keys :: "string list"
  ascorbic_keys :: "string list"
  glucose_keys :: "string list"
  time_unit :: string
  voltage_scale :: rat
  uric_scale :: rat
  ascorbic_scale :: rat
  glucose_scale :: rat

record AppConfig_m =
  ui_m :: UIConfig_m
  filt_m :: FilterConfig_m
  save_m :: SaveConfig_m
  proto_m :: ProtocolConfig_m

definition AppConfig_m_default :: AppConfig_m where
  "AppConfig_m_default =
     \<lparr>ui_m = \<lparr>ui_update_interval_ms = 50, max_table_rows = 2000\<rparr>,
      filt_m = \<lparr>filter_type = MOVING_AVG, window_size = 5,
                kalman_Q = round_double (1 / 100), kalman_R = round_double (1 / 10)\<rparr>,
      save_m = \<lparr>auto_save = False, save_interval_ms = 1000, save_path = ''./serial_data''\<rparr>,
      proto_m = \<lparr>time_keys = [''t'', ''time'', ''sec'', ''seconds'', ''timestamp''],
                 voltage_keys = [''voltage'', ''V'', ''v''],
                 uric_keys = [''uric'', ''uric_uA'', ''UA'', ''uA_uric''],
                 ascorbic_keys = [''ascorbic'', ''ascorbic_uA'', ''AA'', ''uA_ascorbic''],
                 glucose_keys = [''glucose'', ''glucose_mA'', ''GLU'', ''mA_glucose''],
                 time_unit = ''auto'', voltage_scale = 1, uric_scale = 1, ascorbic_scale = 1,
                 glucose_scale = 1\<rparr>\<rparr>"

subsection \<open>The built-in conversions\<close>

text \<open>An exception is a value: \<open>Inl\<close> of the error.\<close>

definition bind_err :: "py_error + 'a \<Rightarrow> ('a \<Rightarrow> py_error + 'b) \<Rightarrow> py_error + 'b" where
  "bind_err m f = (case m of Inl e \<Rightarrow> Inl e | Inr x \<Rightarrow> f x)"

text \<open>\<open>int\<close> of a string: surrounding whitespace is stripped, a sign may lead, and the
  digits may be grouped by single underscores.  A string is the list of the bytes of its
  UTF-8 encoding.  The literal is parsed here when the string is ASCII and has at most 640
  characters; the blanks of such a string are the six characters of \<open>is_space\<close>.  In any
  other string Python also reads the decimal digits and the blanks of Unicode, and it
  refuses a literal with more digits than the interpreter's limit (4300 unless configured,
  never below 640): there the result is that of the parameter \<open>int_of_other\<close>, \<open>None\<close>
  where \<open>int\<close> raises \<open>ValueError\<close>.\<close>

definition is_space :: "char \<Rightarrow> bool" where
  "is_space c = (c \<in> set [CHR 0x20, CHR 0x09, CHR 0x0A, CHR 0x0D, CHR 0x0B, CHR 0x0C])"

definition strip :: "string \<Rightarrow> string" where
  "strip s = rev (dropWhile is_space (rev (dropWhile is_space s)))"

definition digit_of :: "char \<Rightarrow> nat option" where
  "digit_of c =
     (let n = (of_char c :: nat) in if 48 \<le> n \<and> n \<le> 57 then Some (n - 48) else None)"

fun parse_digits :: "string \<Rightarrow> nat \<Rightarrow> bool \<Rightarrow> nat option" where
  "parse_digits [] acc after_digit = (if after_digit then Some acc else None)"
| "parse_digits (c # cs) acc after_digit =
     (if c = CHR ''_'' then (if after_digit then parse_digits cs acc False else None)
      else (case digit_of c of
              Some d \<Rightarrow> parse_digits cs (10 * acc + d) True
            | None \<Rightarrow> None))"

definition int_of_ascii :: "string \<Rightarrow> int option" where
  "int_of_ascii s =
     (case strip s of
        [] \<Rightarrow> None
      | c # cs \<Rightarrow>
          if c = CHR ''-'' then map_option (\<lambda>n. - int n) (parse_digits cs 0 False)
          else if c = CHR ''+'' then map_option int (parse_digits cs 0 False)
          else map_option int (parse_digits (c # cs) 0 False))"

definition int_of_str :: "(string \<Rightarrow> int option) \<Rightarrow> string \<Rightarrow> int option" where
  "int_of_str int_of_other s =
     (if length s \<le> 640 \<and> list_all (\<lambda>c. (of_char c :: nat) < 128) s then int_of_ascii s
      else int_of_other s)"

text \<open>\<open>int(v)\<close>: a float is truncated toward zero; \<open>None\<close>, a list, a dictionary raise
  \<open>TypeError\<close>; a string that is no integer literal raises \<open>ValueError\<close>.\<close>

definition py_int :: "(string \<Rightarrow> int option) \<Rightarrow> pyval \<Rightarrow> py_error + int" where
  "py_int int_of_other v =
     (case v of
        PInt n \<Rightarrow> Inr n
      | PBool b \<Rightarrow> Inr (if b then 1 else 0)
      | PFloat r \<Rightarrow> Inr (if 0 \<le> r then \<lfloor>r\<rfloor> else \<lceil>r\<rceil>)
      | PStr s \<Rightarrow>
          (case int_of_str int_of_other s of Some n \<Rightarrow> Inr n | None \<Rightarrow> Inl ValueError)
      | _ \<Rightarrow> Inl TypeError)"

text \<open>\<open>float(v)\<close>.  An integer is rounded to the nearest float, and one that rounds
  beyond the largest float (from \<open>2 ^ 1024 - 2 ^ 970\<close> on) raises \<open>OverflowError\<close>.  The
  float literal syntax of Python strings belongs to the Python library and is the
  parameter \<open>float_of_str\<close> (\<open>None\<close> where \<open>float\<close> raises \<open>ValueError\<close>).\<close>

definition py_float :: "(string \<Rightarrow> rat option) \<Rightarrow> pyval \<Rightarrow> py_error + rat" where
  "py_float float_of_str v =
     (case v of
        PFloat r \<Rightarrow> Inr r
      | PInt n \<Rightarrow>
          if \<bar>n\<bar> < 2 ^ 1024 - 2 ^ 970 then Inr (round_double (of_int n))
          else Inl OverflowError
      | PBool b \<Rightarrow> Inr (if b then 1 else 0)
      | PStr s \<Rightarrow> (case float_of_str s of Some r \<Rightarrow> Inr r | None \<Rightarrow> Inl ValueError)
      | _ \<Rightarrow> Inl TypeError)"

text \<open>\<open>bool(v)\<close>: the truth value of a Python value; it never raises.\<close>

definition py_bool :: "pyval \<Rightarrow> bool" where
  "py_bool v =
     (case v of
        PNone \<Rightarrow> False
      | PBool b \<Rightarrow> b
      | PInt n \<Rightarrow> n \<noteq> 0
      | PFloat r \<Rightarrow> r \<noteq> 0
      | PStr s \<Rightarrow> s \<noteq> []
      | PList xs \<Rightarrow> xs \<noteq> []
      | PDict d \<Rightarrow> d \<noteq> fmempty
      | PFilterType ft \<Rightarrow> True)"

text \<open>\<open>str(v)\<close>: a string is returned as it is; the printed form of any other value is
  the parameter \<open>render\<close>.  It never raises.\<close>

definition py_str :: "(pyval \<Rightarrow> string) \<Rightarrow> pyval \<Rightarrow> string" where
  "py_str render v = (case v of PStr s \<Rightarrow> s | _ \<Rightarrow> render v)"

text \<open>\<open>v.get(key, default)\<close> on a value that should be a dictionary: any other value has
  no attribute \<open>get\<close>.\<close>

definition obj_get :: "pyval \<Rightarrow> string \<Rightarrow> pyval \<Rightarrow> py_error + pyval" where
  "obj_get v key dflt =
     (case v of PDict d \<Rightarrow> Inr (dict_get d key dflt) | _ \<Rightarrow> Inl AttributeError)"

text \<open>\<open>_safe_filter_type(v, default)\<close>: the first member whose value or name equals
  \<open>v\<close>.\<close>

definition safe_filter_type :: "pyval \<Rightarrow> FilterType \<Rightarrow> FilterType" where
  "safe_filter_type v dflt =
     (case find (\<lambda>ft. v = PStr (filter_type_value ft) \<or> v = PStr (filter_type_name ft))
             filter_types of
        Some ft \<Rightarrow> ft
      | None \<Rightarrow> dflt)"

subsection \<open>Saving\<close>

text \<open>\<open>asdict(self)\<close> with the filter type replaced by its value, as \<open>save_to\<close> hands it
  to \<open>json.dumps\<close>; a tuple of keys is written as a JSON list.\<close>

definition asdict_m :: "AppConfig_m \<Rightarrow> pyval" where
  "asdict_m cfg =
     PDict (fmap_of_list
       [(''ui'', PDict (fmap_of_list
           [(''ui_update_interval_ms'', PInt (ui_update_interval_ms (ui_m cfg))),
            (''max_table_rows'', PInt (max_table_rows (ui_m cfg)))])),
        (''filt'', PDict (fmap_of_list
           [(''filter_type'', PStr (filter_type_value (filter_type (filt_m cfg)))),
            (''window_size'', PInt (window_size (filt_m cfg))),
            (''kalman_Q'', PFloat (kalman_Q (filt_m cfg))),
            (''kalman_R'', PFloat (kalman_R (filt_m cfg)))])),
        (''save'', PDict (fmap_of_list
           [(''auto_save'', PBool (auto_save (save_m cfg))),
            (''save_interval_ms'', PInt (save_interval_ms (save_m cfg))),
            (''save_path'', PStr (save_path (save_m cfg)))])),
        (''proto'', PDict (fmap_of_list
           [(''time_keys'', PList (map PStr (time_keys (proto_m cfg)))),
            (''voltage_keys'', PList (map PStr (voltage_keys (proto_m cfg)))),
            (''uric_keys'', PList (map PStr (uric_keys (proto_m cfg)))),
            (''ascorbic_keys'', PList (map PStr (ascorbic_keys (proto_m cfg)))),
            (''glucose_keys'', PList (map PStr (glucose_keys (proto_m cfg)))),
            (''time_unit'', PStr (time_unit (proto_m cfg))),
            (''voltage_scale'', PFloat (voltage_scale (proto_m cfg))),
            (''uric_scale'', PFloat (uric_scale (proto_m cfg))),
            (''ascorbic_scale'', PFloat (ascorbic_scale (proto_m cfg))),
            (''glucose_scale'', PFloat (glucose_scale (proto_m cfg)))]))])"

text \<open>\<open>save_to\<close>: the file is overwritten with the serialized configuration.  The file
  state afterwards is the document that the written text parses to.\<close>

definition save_to_m :: "AppConfig_m \<Rightarrow> file_state \<Rightarrow> file_state" where
  "save_to_m cfg file = Some (Document (asdict_m cfg))"

subsection \<open>Loading\<close>

text \<open>The four sections of \<open>load\<close>, in the order of the source; the first conversion that
  raises ends the load with its exception.\<close>

definition load_ui ::
  "(string \<Rightarrow> int option) \<Rightarrow> pyval \<Rightarrow> UIConfig_m \<Rightarrow> py_error + UIConfig_m" where
  "load_ui int_of_other raw cur =
     bind_err (obj_get raw ''ui'' (PDict fmempty)) (\<lambda>ui.
     bind_err (obj_get ui ''ui_update_interval_ms'' (PInt (ui_update_interval_ms cur))) (\<lambda>v1.
     bind_err (py_int int_of_other v1) (\<lambda>interval.
     bind_err (obj_get ui ''max_table_rows'' (PInt (max_table_rows cur))) (\<lambda>v2.
     bind_err (py_int int_of_other v2) (\<lambda>rows.
     Inr (cur\<lparr>ui_update_interval_ms := interval, max_table_rows := rows\<rparr>))))))"

definition load_filt ::
  "(string \<Rightarrow> int option) \<Rightarrow> (string \<Rightarrow> rat option) \<Rightarrow> pyval \<Rightarrow> FilterConfig_m
     \<Rightarrow> py_error + FilterConfig_m" where
  "load_filt int_of_other float_of_str raw cur =
     bind_err (obj_get raw ''filt'' (PDict fmempty)) (\<lambda>flt.
     bind_err (obj_get flt ''filter_type'' (PStr (filter_type_value (filter_type cur)))) (\<lambda>ft.
     let ftype = safe_filter_type ft (filter_type cur) in
     bind_err (obj_get flt ''window_size'' (PInt (window_size cur))) (\<lambda>v1.
     bind_err (py_int int_of_other v1) (\<lambda>w.
     bind_err (obj_get flt ''kalman_Q'' (PFloat (kalman_Q cur))) (\<lambda>v2.
     bind_err (py_float float_of_str v2) (\<lambda>q.
     bind_err (obj_get flt ''kalman_R'' (PFloat (kalman_R cur))) (\<lambda>v3.
     bind_err (py_float float_of_str v3) (\<lambda>r.
     Inr (cur\<lparr>filter_type := ftype, window_size := w, kalman_Q := q, kalman_R := r\<rparr>)))))))))"

definition load_save ::
  "(string \<Rightarrow> int option) \<Rightarrow> (pyval \<Rightarrow> string) \<Rightarrow> pyval \<Rightarrow> SaveConfig_m
     \<Rightarrow> py_error + SaveConfig_m" where
  "load_save int_of_other render raw cur =
     bind_err (obj_get raw ''save'' (PDict fmempty)) (\<lambda>sv.
     bind_err (obj_get sv ''auto_save'' (PBool (auto_save cur))) (\<lambda>v1.
     bind_err (obj_get sv ''save_interval_ms'' (PInt (save_interval_ms cur))) (\<lambda>v2.
     bind_err (py_int int_of_other v2) (\<lambda>interval.
     bind_err (obj_get sv ''save_path'' (PStr (save_path cur))) (\<lambda>v3.
     Inr (cur\<lparr>auto_save := py_bool v1, save_interval_ms := interval,
              save_path := py_str render v3\<rparr>))))))"

definition load_proto ::
  "(string \<Rightarrow> rat option) \<Rightarrow> (pyval \<Rightarrow> string) \<Rightarrow> pyval \<Rightarrow> ProtocolConfig_m
     \<Rightarrow> py_error + ProtocolConfig_m" where
  "load_proto float_of_str render raw cur =
     bind_err (obj_get raw ''proto'' (PDict fmempty)) (\<lambda>pr.
     bind_err (obj_get pr ''time_unit'' (PStr (time_unit cur))) (\<lambda>v0.
     bind_err (obj_get pr ''voltage_scale'' (PFloat (voltage_scale cur))) (\<lambda>v1.
     bind_err (py_float float_of_str v1) (\<lambda>vs.
     bind_err (obj_get pr ''uric_scale'' (PFloat (uric_scale cur))) (\<lambda>v2.
     bind_err (py_float float_of_str v2) (\<lambda>us.
     bind_err (obj_get pr ''ascorbic_scale'' (PFloat (ascorbic_scale cur))) (\<lambda>v3.
     bind_err (py_float float_of_str v3) (\<lambda>as.
     bind_err (obj_get pr ''glucose_scale'' (PFloat (glucose_scale cur))) (\<lambda>v4.
     bind_err (py_float float_of_str v4) (\<lambda>gs.
     Inr (cur\<lparr>time_unit := py_str render v0, voltage_scale := vs, uric_scale := us,
              ascorbic_scale := as, glucose_scale := gs\<rparr>)))))))))))"

text \<open>\<open>AppConfig.load()\<close> of the final monitor: the result (a configuration, or the
  exception that leaves \<open>load\<close>) and the state of the configuration file afterwards.  The
  first three arguments are the library functions of the conversions.\<close>

definition load_m ::
  "(string \<Rightarrow> int option) \<Rightarrow> (string \<Rightarrow> rat option) \<Rightarrow> (pyval \<Rightarrow> string) \<Rightarrow> file_state
     \<Rightarrow> (py_error + AppConfig_m) \<times> file_state" where
  "load_m int_of_other float_of_str render file =
     (case file of
        None \<Rightarrow> (Inr AppConfig_m_default, save_to_m AppConfig_m_default file)
      | Some (Unparseable txt) \<Rightarrow>
          (Inr AppConfig_m_default, save_to_m AppConfig_m_default file)
      | Some (Document raw) \<Rightarrow>
          (let cfg = AppConfig_m_default in
           bind_err (load_ui int_of_other raw (ui_m cfg)) (\<lambda>u.
           bind_err (load_filt int_of_other float_of_str raw (filt_m cfg)) (\<lambda>f.
           bind_err (load_save int_of_other render raw (save_m cfg)) (\<lambda>s.
           bind_err (load_proto float_of_str render raw (proto_m cfg)) (\<lambda>p.
           Inr (cfg\<lparr>ui_m := u, filt_m := f, save_m := s, proto_m := p\<rparr>))))),
           file))"

section \<open>Filtering pipeline (01_ReadSerial.py, DataMonitorPage)\<close>

text \<open>\<open>DataMonitorPage.KalmanFilter\<close>: the estimate \<open>x\<close> is \<open>None\<close> before the first
  observation.  The fields carry the prefix \<open>kf_\<close>.  The arithmetic of the filter rounds
  with the parameter \<open>rnd\<close>.\<close>

record KalmanFilter =
  kf_Q :: rat
  kf_R :: rat
  kf_x :: "rat option"
  kf_P :: rat

text \<open>\<open>KalmanFilter(Q, R)\<close>; the literal \<open>0.1\<close> of \<open>self.P = 0.1\<close> is rounded.\<close>

definition new_KalmanFilter :: "(rat \<Rightarrow> rat) \<Rightarrow> rat \<Rightarrow> rat \<Rightarrow> KalmanFilter" where
  "new_KalmanFilter rnd Q R = \<lparr>kf_Q = Q, kf_R = R, kf_x = None, kf_P = rnd (1 / 10)\<rparr>"

text \<open>\<open>KalmanFilter.update(z)\<close>: the returned estimate and the filter afterwards.  A float
  division by zero raises \<open>ZeroDivisionError\<close> in Python.\<close>

definition kalman_update ::
  "(rat \<Rightarrow> rat) \<Rightarrow> KalmanFilter \<Rightarrow> rat \<Rightarrow> py_error + rat \<times> KalmanFilter" where
  "kalman_update rnd self z =
     (case kf_x self of
        None \<Rightarrow> Inr (z, self\<lparr>kf_x := Some z\<rparr>)
      | Some x \<Rightarrow>
          let P_pred = rnd (kf_P self + kf_Q self);
              denom = rnd (P_pred + kf_R self)
          in if denom = 0 then Inl ZeroDivisionError
             else
               let K = rnd (P_pred / denom);
                   x' = rnd (x + rnd (K * rnd (z - x)));
                   P' = rnd (rnd (1 - K) * P_pred)
               in Inr (x', self\<lparr>kf_x := Some x', kf_P := P'\<rparr>))"

definition kalman_reset :: "(rat \<Rightarrow> rat) \<Rightarrow> KalmanFilter \<Rightarrow> KalmanFilter" where
  "kalman_reset rnd self = self\<lparr>kf_x := None, kf_P := rnd (1 / 10)\<rparr>"

text \<open>The part of the page that the filters use: the filter section of the configuration,
  the per-channel histories and the per-channel Kalman filters.\<close>

record monitor =
  cfg_filt :: FilterConfig_m
  filter_buffers :: "string \<rightharpoonup> rat list"
  kalman_filters :: "string \<rightharpoonup> KalmanFilter"

definition init_kalman_filters :: "(rat \<Rightarrow> rat) \<Rightarrow> monitor \<Rightarrow> monitor" where
  "init_kalman_filters rnd self =
     (let kf = new_KalmanFilter rnd (kalman_Q (cfg_filt self)) (kalman_R (cfg_filt self))
      in self\<lparr>kalman_filters :=
           [''uric'' \<mapsto> kf, ''ascorbic'' \<mapsto> kf, ''glucose'' \<mapsto> kf, ''voltage'' \<mapsto> kf]\<rparr>)"

text \<open>The filter state that \<open>DataMonitorPage.__init__\<close> sets up.\<close>

definition new_monitor :: "(rat \<Rightarrow> rat) \<Rightarrow> FilterConfig_m \<Rightarrow> monitor" where
  "new_monitor rnd flt =
     (let self = \<lparr>cfg_filt = flt,
                  filter_buffers =
                    [''uric'' \<mapsto> [], ''ascorbic'' \<mapsto> [], ''glucose'' \<mapsto> [], ''voltage'' \<mapsto> []],
                  kalman_filters = Map.empty\<rparr>
      in if filter_type flt = KALMAN then init_kalman_filters rnd self else self)"

text \<open>\<open>_apply_filter(key, raw_value)\<close>: the filtered value and the page afterwards.
  \<open>buf[-w:]\<close> with \<open>1 \<le> w \<le> len(buf)\<close> is the last \<open>w\<close> values; \<open>sum\<close> adds them from
  the left, starting at 0; a key outside the dictionaries raises \<open>KeyError\<close>.\<close>

definition apply_filter ::
  "(rat \<Rightarrow> rat) \<Rightarrow> monitor \<Rightarrow> string \<Rightarrow> rat \<Rightarrow> py_error + rat \<times> monitor" where
  "apply_filter rnd self key raw_value =
     (let ft = filter_type (cfg_filt self) in
      if ft = KALMAN then
        (let self1 = (if kalman_filters self key = None then init_kalman_filters rnd self
                      else self)
         in (case kalman_filters self1 key of
               None \<Rightarrow> Inl KeyError
             | Some kf \<Rightarrow>
                 (case kalman_update rnd kf raw_value of
                    Inl e \<Rightarrow> Inl e
                  | Inr (y, kf') \<Rightarrow>
                      Inr (y, self1\<lparr>kalman_filters := (kalman_filters self1)(key \<mapsto> kf')\<rparr>))))
      else
        (case filter_buffers self key of
           None \<Rightarrow> Inl KeyError
         | Some buf0 \<Rightarrow>
             let buf1 = buf0 @ [raw_value];
                 max_buf = window_size (cfg_filt self) * 2;
                 buf = (if int (length buf1) > max_buf
                        then drop (nat (int (length buf1) - max_buf)) buf1 else buf1);
                 self' = self\<lparr>filter_buffers := (filter_buffers self)(key \<mapsto> buf)\<rparr>
             in if ft = NONE then Inr (raw_value, self')
                else
                  let w = min (window_size (cfg_filt self)) (int (length buf))
                  in if w \<le> 0 then Inr (raw_value, self')
                     else if ft = MOVING_AVG then
                       Inr (rnd (foldl (\<lambda>acc v. rnd (acc + v)) 0
                                   (drop (length buf - nat w) buf) / of_int w), self')
                     else if ft = MEDIAN then
                       (let s = sort (drop (length buf - nat w) buf)
                        in Inr (s ! (length s div 2), self'))
                     else Inr (raw_value, self')))"

text \<open>Feeding the values of one channel in order and collecting the filtered values, as
  \<open>_process_single_data\<close> does sample by sample.\<close>

fun apply_filter_seq ::
  "(rat \<Rightarrow> rat) \<Rightarrow> monitor \<Rightarrow> string \<Rightarrow> rat list \<Rightarrow> py_error + rat list \<times> monitor" where
  "apply_filter_seq rnd self key [] = Inr ([], self)"
| "apply_filter_seq rnd self key (v # vs) =
     (case apply_filter rnd self key v of
        Inl e \<Rightarrow> Inl e
      | Inr (y, self') \<Rightarrow>
          (case apply_filter_seq rnd self' key vs of
             Inl e \<Rightarrow> Inl e
           | Inr (ys, self'') \<Rightarrow> Inr (y # ys, self'')))"

text \<open>Feeding the same observation \<open>n\<close> times to one Kalman filter: the filter after
  the last observation, or the exception of the first update that raises.\<close>

fun kalman_feed ::
  "(rat \<Rightarrow> rat) \<Rightarrow> nat \<Rightarrow> rat \<Rightarrow> KalmanFilter \<Rightarrow> py_error + KalmanFilter" where
  "kalman_feed rnd 0 z kf = Inr kf"
| "kalman_feed rnd (Suc n) z kf =
     (case kalman_update rnd kf z of
        Inl e \<Rightarrow> Inl e
      | Inr (y, kf') \<Rightarrow> kalman_feed rnd n z kf')"

text \<open>The same run, watching the covariance: each of the \<open>n\<close> observations returns and
  leaves \<open>P\<close> strictly smaller than it was.\<close>

fun kalman_decreasing :: "(rat \<Rightarrow> rat) \<Rightarrow> nat \<Rightarrow> rat \<Rightarrow> KalmanFilter \<Rightarrow> bool" where
  "kalman_decreasing rnd 0 z kf = True"
| "kalman_decreasing rnd (Suc n) z kf =
     (case kalman_update rnd kf z of
        Inl e \<Rightarrow> False
      | Inr (y, kf') \<Rightarrow> kf_P kf' < kf_P kf \<and> kalman_decreasing rnd n z kf')"

section \<open>Serial receive worker (01_ReadSerial.py, SerialWorker)\<close>

record SerialWorker =
  running :: bool
  is_bluetooth :: bool
  base_interval :: int
  current_interval :: int

definition new_SerialWorker :: "bool \<Rightarrow> SerialWorker" where
  "new_SerialWorker bt =
     (let base = (if bt then 20 else 5)
      in \<lparr>running = False, is_bluetooth = bt, base_interval = base, current_interval = base\<rparr>)"

text \<open>What one poll of the port finds: waiting bytes, nothing, or an exception of the
  serial library.\<close>

datatype poll = Data "byte list" | Empty | ReadError

text \<open>One pass through the body of the \<open>while\<close> loop of \<open>read_data\<close>: the worker
  afterwards, the chunk it emitted and the time it slept (\<open>None\<close> after an exception,
  which leaves the loop without sleeping).\<close>

definition read_step :: "SerialWorker \<Rightarrow> poll \<Rightarrow> SerialWorker \<times> byte list option \<times> int option" where
  "read_step self p =
     (case p of
        Data bs \<Rightarrow>
          (let self' = self\<lparr>current_interval := base_interval self\<rparr>
           in (self', Some bs, Some (current_interval self')))
      | Empty \<Rightarrow>
          (let self' = self\<lparr>current_interval := min (current_interval self * 2) 500\<rparr>
           in (self', None, Some (current_interval self')))
      | ReadError \<Rightarrow> (self\<lparr>running := False\<rparr>, None, None))"

text \<open>\<open>read_data\<close> along a sequence of poll outcomes: the loop runs while \<open>running\<close>
  holds.  The result is the worker and the list of sleeps.\<close>

fun read_data :: "SerialWorker \<Rightarrow> poll list \<Rightarrow> SerialWorker \<times> int list" where
  "read_data self [] = (self, [])"
| "read_data self (p # ps) =
     (if running self then
        (case read_step self p of
           (self', chunk, slept) \<Rightarrow>
             (case read_data self' ps of
                (self'', sleeps) \<Rightarrow>
                  (self'', (case slept of Some ms \<Rightarrow> [ms] | None \<Rightarrow> []) @ sleeps)))
      else (self, []))"

definition start_worker :: "SerialWorker \<Rightarrow> poll list \<Rightarrow> SerialWorker \<times> int list" where
  "start_worker self polls = read_data (self\<lparr>running := True\<rparr>) polls"

section \<open>CV-cycle segmentation (05_ReadSerial_14.py, DataMonitorPage._build_cv_cycles)\<close>

type_synonym point = "rat \<times> rat"

text \<open>The variables of the loop; \<open>current_dir\<close> is \<open>None\<close>, \<open>Some 1\<close> or \<open>Some (- 1)\<close>.\<close>

record cv_state =
  cycles :: "point list list"
  current_cycle :: "point list"
  prev_v :: rat
  prev_g :: rat
  current_dir :: "int option"

definition cv_step :: "rat \<Rightarrow> int \<Rightarrow> cv_state \<Rightarrow> point \<Rightarrow> cv_state" where
  "cv_step dv_threshold min_points st p =
     (case p of (v, g) \<Rightarrow>
        let dv = v - prev_v st in
        if \<bar>dv\<bar> < dv_threshold then
          st\<lparr>current_cycle := current_cycle st @ [(v, g)], prev_v := v, prev_g := g\<rparr>
        else
          let step_dir = (if dv > 0 then 1 else - 1);
              st' =
                (case current_dir st of
                   None \<Rightarrow> st\<lparr>current_dir := Some step_dir,
                               current_cycle := current_cycle st @ [(v, g)]\<rparr>
                 | Some d \<Rightarrow>
                     if step_dir = d then st\<lparr>current_cycle := current_cycle st @ [(v, g)]\<rparr>
                     else
                       st\<lparr>cycles := (if int (length (current_cycle st)) \<ge> min_points
                                      then cycles st @ [current_cycle st] else cycles st),
                          current_cycle := [(prev_v st, prev_g st), (v, g)],
                          current_dir := Some step_dir\<rparr>)
          in st'\<lparr>prev_v := v, prev_g := g\<rparr>)"

definition build_cv_cycles :: "point list \<Rightarrow> rat \<Rightarrow> int \<Rightarrow> point list list" where
  "build_cv_cycles data dv_threshold min_points =
     (case data of
        [] \<Rightarrow> []
      | [p] \<Rightarrow> []
      | (v0, g0) # rest \<Rightarrow>
          let st0 = \<lparr>cycles = [], current_cycle = [(v0, g0)], prev_v = v0, prev_g = g0,
                     current_dir = None\<rparr>;
              st = foldl (cv_step dv_threshold min_points) st0 rest
          in if int (length (current_cycle st)) \<ge> min_points
             then cycles st @ [current_cycle st] else cycles st)"

section \<open>Test inputs named by the specification\<close>

text \<open>The synthetic sweep of the segmentation property: the voltage rises from 0.0 to 1.0
  in steps of 0.1 V and falls back to 0.0 in steps of 0.1 V (21 samples).\<close>

definition sweep_voltages :: "rat list" where
  "sweep_voltages =
     [0, 1 / 10, 2 / 10, 3 / 10, 4 / 10, 5 / 10, 6 / 10, 7 / 10, 8 / 10, 9 / 10, 1,
      9 / 10, 8 / 10, 7 / 10, 6 / 10, 5 / 10, 4 / 10, 3 / 10, 2 / 10, 1 / 10, 0]"

text \<open>The filter section with the median filter and a window of 3 selected, the other
  fields at their defaults.\<close>

definition median3_cfg :: FilterConfig_m where
  "median3_cfg = (filt_m AppConfig_m_default)\<lparr>filter_type := MEDIAN, window_size := 3\<rparr>"

text \<open>The text of the JSON object \<^verbatim>\<open>{"a":"}"}\<close>: one member, whose string value is a
  closing brace (\<open>CHR 0x22\<close> is the double quote).\<close>

definition brace_in_string_text :: string where
  "brace_in_string_text =
     [CHR ''{'', CHR 0x22, CHR ''a'', CHR 0x22, CHR '':'', CHR 0x22, CHR ''}'', CHR 0x22,
      CHR ''}'']"

text \<open>The Kalman filter of the convergence property, as Python builds it: \<open>Q = 0.01\<close> and
  \<open>R = 0.1\<close> are float literals, hence rounded, and the arithmetic is the one of Python
  floats.\<close>

definition kalman_claim_filter :: KalmanFilter where
  "kalman_claim_filter =
     new_KalmanFilter round_double (round_double (1 / 100)) (round_double (1 / 10))"

section \<open>Evaluating the rounding\<close>

text \<open>Floors of numeral fractions, for the simplifier.\<close>

lemma floor_numeral_div: "\<lfloor>(numeral a :: rat) / numeral b\<rfloor> = numeral a div numeral b"
  using floor_divide_of_int_eq [of "numeral a" "numeral b", where 'a = rat] by simp

lemma ceiling_numeral_div: "\<lceil>(numeral a :: rat) / numeral b\<rceil> = - ((- numeral a) div numeral b)"
  using floor_divide_of_int_eq [of "- numeral a" "numeral b", where 'a = rat] by (simp add: ceiling_def)

lemmas double_eval = round_double_def ilog2_def pow2_def round_half_even_def bit_length.simps
  floor_numeral_div ceiling_numeral_div Let_def

lemma round_double_0: "round_double 0 = 0"
  by (simp add: round_double_def)

lemma round_double_100: "round_double 100 = 100"
  by (simp add: double_eval cong: let_weak_cong)

section \<open>Properties of the binary frame decoder\<close>

subsection \<open>Arithmetic of the checksum\<close>

lemma mod256_cancel_le:
  fixes r a c :: nat
  assumes eq: "(r + a) mod 256 = (r + c) mod 256" and "a \<le> c" "c < 256"
  shows "a = c"
proof -
  have "256 dvd (r + c) - (r + a)"
    using eq assms(2) mod_eq_dvd_iff_nat [of "r + a" "r + c" 256] by simp
  then have "256 dvd c - a" by simp
  moreover have "c - a < 256" using assms(3) by simp
  ultimately have "c - a = 0" by (meson dvd_imp_le not_less zero_less_iff_neq_zero)
  with assms(2) show ?thesis by simp
qed

lemma mod256_cancel:
  fixes r a c :: nat
  assumes "(r + a) mod 256 = (r + c) mod 256" "a < 256" "c < 256"
  shows "a = c"
proof (cases "a \<le> c")
  case True
  with assms show ?thesis by (intro mod256_cancel_le [of r a c]) simp_all
next
  case False
  with assms have "c = a" by (intro mod256_cancel_le [of r c a]) simp_all
  then show ?thesis by simp
qed

lemma checksum_update:
  fixes xs :: "byte list"
  assumes "k < length xs" "x \<noteq> xs ! k"
  shows "sum_list (map unat (xs[k := x])) mod 256 \<noteq> sum_list (map unat xs) mod 256"
proof
  let ?S = "sum_list (map unat xs)"
  let ?a = "unat x" and ?c = "unat (xs ! k)"
  assume eq: "sum_list (map unat (xs[k := x])) mod 256 = ?S mod 256"
  have upd: "sum_list (map unat (xs[k := x])) = ?S + ?a - ?c"
    using assms(1) by (simp add: map_update sum_list_update)
  have "?c \<in> set (map unat xs)" using assms(1) by simp
  then have cle: "?c \<le> ?S" by (simp add: member_le_sum_list)
  have a: "?a < 256" and c: "?c < 256"
    using unsigned_less [of x, where 'a = nat] unsigned_less [of "xs ! k", where 'a = nat] by simp_all
  have ne: "?a \<noteq> ?c" using assms(2) by (simp add: word_unat_eq_iff)
  define r where "r = ?S - ?c"
  have S: "?S = r + ?c" using cle by (simp add: r_def)
  have "(r + ?a) mod 256 = (r + ?c) mod 256"
    using eq upd S by simp
  then have "?a = ?c" using a c by (rule mod256_cancel)
  with ne show False by contradiction
qed


lemma and_255_mod: "(n::nat) AND 0xFF = n mod 256"
proof -
  have "n AND mask 8 = n mod 2 ^ 8" by (simp only: flip: take_bit_eq_mask  take_bit_eq_mod)
  then show ?thesis by (simp add: mask_eq_exp_minus_1)
qed

lemma payload_of_frame: "take 12 (drop 1 (take FRAME_LEN buf)) = take 12 (drop 1 buf)"
  by (simp add: FRAME_LEN_def drop_take)

lemma scan_step_valid:
  assumes "buf ! 0 = HEAD" "buf ! 14 = TAIL"
    and "unat (buf ! 13) = sum_list (map unat (take 12 (drop 1 buf))) mod 256"
  shows "scan_step buf = (Some (unpack_payload (take 12 (drop 1 buf))), drop FRAME_LEN buf)"
  using assms unfolding scan_step_def Let_def payload_of_frame and_255_mod
  by (simp add: FRAME_LEN_def)

lemma scan_step_bad_sum:
  assumes "unat (buf ! 13) \<noteq> sum_list (map unat (take 12 (drop 1 buf))) mod 256"
  shows "scan_step buf = (None, drop 1 buf)"
  using assms unfolding scan_step_def Let_def payload_of_frame and_255_mod
  by (simp add: FRAME_LEN_def)

lemma feed_loop_short: "length buf < FRAME_LEN \<Longrightarrow> feed_loop buf emitted = Some (emitted, buf)"
  by (subst feed_loop.simps) simp

lemma length_15_explicit:
  assumes "length xs = 15"
  obtains b0 b1 b2 b3 b4 b5 b6 b7 b8 b9 b10 b11 b12 b13 b14
  where "xs = [b0, b1, b2, b3, b4, b5, b6, b7, b8, b9, b10, b11, b12, b13, b14]"
  using assms by (auto simp: numeral_eq_Suc length_Suc_conv)

lemma unpack_payload_of_frame:
  assumes "length data = 15"
  shows "unpack_payload (take 12 (drop 1 data)) =
     \<lparr>t = unat (data ! 1) + 256 * unat (data ! 2) + 65536 * unat (data ! 3)
            + 16777216 * unat (data ! 4),
      voltage = round_double (round_double (of_nat (unat (data ! 11) + 256 * unat (data ! 12))
                                                          / 4095) * round_double (33 / 10)),
      uric = unat (data ! 5) + 256 * unat (data ! 6),
      ascorbic = unat (data ! 7) + 256 * unat (data ! 8),
      glucose = unat (data ! 9) + 256 * unat (data ! 10)\<rparr>"
proof -
  from assms obtain b0 b1 b2 b3 b4 b5 b6 b7 b8 b9 b10 b11 b12 b13 b14
    where "data = [b0, b1, b2, b3, b4, b5, b6, b7, b8, b9, b10, b11, b12, b13, b14]"
    by (rule length_15_explicit)
  then show ?thesis by (simp add: unpack_payload_def)
qed

lemma scan_step_cases:
  "(\<exists>d. scan_step buf = (Some d, drop FRAME_LEN buf)) \<or> scan_step buf = (None, drop 1 buf)"
  by (simp add: scan_step_def Let_def)

lemma feed_loop_total:
  "\<exists>out rest. feed_loop buf emitted = Some (out, rest) \<and> length rest < FRAME_LEN"
proof (induction buf arbitrary: emitted rule: length_induct)
  case (1 buf)
  show ?case
  proof (cases "FRAME_LEN \<le> length buf")
    case False
    then show ?thesis by (simp add: feed_loop_short)
  next
    case True
    obtain fr buf' where st: "scan_step buf = (fr, buf')" by (cases "scan_step buf")
    have "buf' = drop 1 buf \<or> buf' = drop FRAME_LEN buf"
      using scan_step_cases [of buf] st by auto
    with True have "length buf' < length buf" by (auto simp: FRAME_LEN_def)
    with 1 have IH: "\<And>e. \<exists>out rest. feed_loop buf' e = Some (out, rest) \<and> length rest < FRAME_LEN"
      by blast
    show ?thesis
      by (subst feed_loop.simps) (use True st IH in \<open>auto split: option.splits\<close>)
  qed
qed

subsection \<open>A valid frame and a corrupted one\<close>

text \<open>
  Claim C1.  Let \<open>data\<close> be 15 bytes with head \<open>0xA5\<close>, tail \<open>0x5A\<close> and byte 13 equal to
  the sum of bytes 1 to 12 modulo 256.  One call of \<open>feed\<close> on a fresh decoder hands
  exactly one frame to the callback: its \<open>uric\<close>, \<open>ascorbic\<close> and \<open>glucose\<close> are the
  16-bit little-endian integers at bytes 5-6, 7-8 and 9-10, its \<open>t\<close> is the 32-bit one at
  bytes 1-4, and its \<open>voltage\<close> is the float \<open>code12 / 4095 * 3.3\<close> for the integer
  \<open>code12\<close> at bytes 11-12 (the quotient rounded, times the float \<open>3.3\<close>, rounded); the
  buffer is left empty.  If one payload byte (index 1 to 12) is replaced
  by a different value and the checksum byte is kept, the same call hands over no frame
  (and keeps the last 14 bytes buffered).
\<close>

theorem feed_checksum_round_trip:
  assumes len: "length data = 15" and head: "data ! 0 = 0xA5" and tail: "data ! 14 = 0x5A"
    and sum: "unat (data ! 13) = sum_list (map unat (take 12 (drop 1 data))) mod 256"
  shows "feed new_binary_decoder data =
           Some ([\<lparr>t = unat (data ! 1) + 256 * unat (data ! 2) + 65536 * unat (data ! 3)
                        + 16777216 * unat (data ! 4),
                   voltage = round_double (round_double (of_nat (unat (data ! 11) + 256 * unat (data ! 12))
                                                          / 4095) * round_double (33 / 10)),
                   uric = unat (data ! 5) + 256 * unat (data ! 6),
                   ascorbic = unat (data ! 7) + 256 * unat (data ! 8),
                   glucose = unat (data ! 9) + 256 * unat (data ! 10)\<rparr>],
                 \<lparr>buffer = []\<rparr>)
       \<and> (\<forall>i b. 1 \<le> i \<and> i \<le> 12 \<and> b \<noteq> data ! i \<longrightarrow>
             feed new_binary_decoder (data[i := b]) =
               Some ([], \<lparr>buffer = drop 1 (data[i := b])\<rparr>))"
proof (intro conjI allI impI)
  have "scan_step data = (Some (unpack_payload (take 12 (drop 1 data))), drop FRAME_LEN data)"
    using head tail sum by (intro scan_step_valid) (simp_all add: HEAD_def TAIL_def)
  moreover have "drop FRAME_LEN data = []" using len by (simp add: FRAME_LEN_def)
  ultimately have "feed_loop data [] = Some ([unpack_payload (take 12 (drop 1 data))], [])"
    using len by (subst feed_loop.simps) (simp add: feed_loop_short FRAME_LEN_def)
  then show "feed new_binary_decoder data =
           Some ([\<lparr>t = unat (data ! 1) + 256 * unat (data ! 2) + 65536 * unat (data ! 3)
                        + 16777216 * unat (data ! 4),
                   voltage = round_double (round_double (of_nat (unat (data ! 11) + 256 * unat (data ! 12))
                                                          / 4095) * round_double (33 / 10)),
                   uric = unat (data ! 5) + 256 * unat (data ! 6),
                   ascorbic = unat (data ! 7) + 256 * unat (data ! 8),
                   glucose = unat (data ! 9) + 256 * unat (data ! 10)\<rparr>],
                 \<lparr>buffer = []\<rparr>)"
    using unpack_payload_of_frame [OF len] by (simp add: feed_def new_binary_decoder_def)
next
  fix i b
  assume ib: "1 \<le> i \<and> i \<le> 12 \<and> b \<noteq> data ! i"
  let ?d = "data[i := b]"
  let ?p = "take 12 (drop 1 data)"
  have p: "take 12 (drop 1 ?d) = ?p[i - 1 := b]"
    using ib by (simp add: drop_update_swap take_update_swap)
  have "sum_list (map unat (?p[i - 1 := b])) mod 256 \<noteq> sum_list (map unat ?p) mod 256"
    using ib len by (intro checksum_update) auto
  moreover have "?d ! 13 = data ! 13" using ib by simp
  ultimately have "scan_step ?d = (None, drop 1 ?d)"
    using sum p by (intro scan_step_bad_sum) simp
  then have "feed_loop ?d [] = Some ([], drop 1 ?d)"
    using len by (subst feed_loop.simps) (simp add: feed_loop_short FRAME_LEN_def)
  then show "feed new_binary_decoder ?d = Some ([], \<lparr>buffer = drop 1 ?d\<rparr>)"
    by (simp add: feed_def new_binary_decoder_def)
qed

theorem feed_checksum_round_trip_witness:
  "feed new_binary_decoder [0xA5, 1, 0, 0, 0, 2, 0, 3, 0, 4, 0, 5, 0, 15, 0x5A] =
     Some ([\<lparr>t = 1, voltage = 290341953998977 / 72057594037927936, uric = 2, ascorbic = 3,
              glucose = 4\<rparr>],
           \<lparr>buffer = []\<rparr>)
   \<and> feed new_binary_decoder [0xA5, 1, 0, 0, 0, 9, 0, 3, 0, 4, 0, 5, 0, 15, 0x5A] =
       Some ([], \<lparr>buffer = [1, 0, 0, 0, 9, 0, 3, 0, 4, 0, 5, 0, 15, 0x5A]\<rparr>)"
proof -
  let ?data = "[0xA5, 1, 0, 0, 0, 2, 0, 3, 0, 4, 0, 5, 0, 15, 0x5A] :: byte list"
  have h: "length ?data = 15" "?data ! 0 = 0xA5" "?data ! 14 = 0x5A"
    "unat (?data ! 13) = sum_list (map unat (take 12 (drop 1 ?data))) mod 256"
    by simp_all
  note rt = feed_checksum_round_trip [OF h]
  have v: "round_double (round_double (1 / 819) * round_double (33 / 10))
      = 290341953998977 / 72057594037927936"
    by (simp add: double_eval cong: let_weak_cong)
  have a: "feed new_binary_decoder ?data =
          Some ([\<lparr>t = 1, voltage = 290341953998977 / 72057594037927936, uric = 2, ascorbic = 3,
                   glucose = 4\<rparr>],
                \<lparr>buffer = []\<rparr>)"
    using rt [THEN conjunct1] by (simp add: v)
  have "feed new_binary_decoder (?data[5 := 9]) =
      Some ([], \<lparr>buffer = drop 1 (?data[5 := 9])\<rparr>)"
    using rt [THEN conjunct2, rule_format, of 5 9] by simp
  then show ?thesis using a by simp
qed

subsection \<open>Termination of the scan\<close>

text \<open>
  Claim C8.  For every decoder state and every input, \<open>feed\<close> returns, and fewer than 15
  bytes remain buffered.  Each pass through the loop body either hands over a frame and
  removes 15 bytes from the front, or hands over nothing and removes the first byte; with
  at least 15 bytes buffered, the buffer becomes shorter by exactly 15 or by exactly 1.
\<close>

theorem feed_terminates:
  "(\<exists>emitted dec'. feed dec data = Some (emitted, dec') \<and> length (buffer dec') < 15)
   \<and> ((\<exists>d. scan_step buf = (Some d, drop 15 buf)) \<or> scan_step buf = (None, drop 1 buf))
   \<and> (15 \<le> length buf \<longrightarrow>
        length (snd (scan_step buf)) = length buf - 15
        \<or> length (snd (scan_step buf)) = length buf - 1)"
proof (intro conjI impI)
  obtain out rest where "feed_loop (buffer dec @ data) [] = Some (out, rest)"
    and "length rest < FRAME_LEN"
    using feed_loop_total by blast
  then show "\<exists>emitted dec'. feed dec data = Some (emitted, dec') \<and> length (buffer dec') < 15"
    by (simp add: feed_def FRAME_LEN_def)
next
  show "(\<exists>d. scan_step buf = (Some d, drop 15 buf)) \<or> scan_step buf = (None, drop 1 buf)"
    using scan_step_cases [of buf] by (simp add: FRAME_LEN_def)
next
  assume "15 \<le> length buf"
  then show "length (snd (scan_step buf)) = length buf - 15
        \<or> length (snd (scan_step buf)) = length buf - 1"
    using scan_step_cases [of buf] by (auto simp: FRAME_LEN_def)
qed

theorem feed_terminates_witness:
  "(\<exists>emitted dec'.
      feed new_binary_decoder
        [0xA5, 0xA5, 0xA5, 0xA5, 0xA5, 0xA5, 0xA5, 0xA5, 0xA5, 0xA5, 0xA5, 0xA5, 0xA5, 0xA5, 0xA5, 0xA5]
        = Some (emitted, dec')
      \<and> length (buffer dec') < 15)
   \<and> scan_step [0xA5, 0xA5, 0xA5, 0xA5, 0xA5, 0xA5, 0xA5, 0xA5, 0xA5, 0xA5, 0xA5, 0xA5, 0xA5, 0xA5, 0xA5, 0xA5]
       = (None, [0xA5, 0xA5, 0xA5, 0xA5, 0xA5, 0xA5, 0xA5, 0xA5, 0xA5, 0xA5, 0xA5, 0xA5, 0xA5, 0xA5, 0xA5])
   \<and> length (snd (scan_step
         [0xA5, 0xA5, 0xA5, 0xA5, 0xA5, 0xA5, 0xA5, 0xA5, 0xA5, 0xA5, 0xA5, 0xA5, 0xA5, 0xA5, 0xA5, 0xA5]))
       = 15"
proof -
  let ?b = "[0xA5, 0xA5, 0xA5, 0xA5, 0xA5, 0xA5, 0xA5, 0xA5, 0xA5, 0xA5, 0xA5, 0xA5, 0xA5, 0xA5,
             0xA5, 0xA5] :: byte list"
  have s: "scan_step ?b = (None, drop 1 ?b)"
    by (simp add: scan_step_def HEAD_def TAIL_def FRAME_LEN_def)
  have l: "15 \<le> length ?b" by simp
  note ft = feed_terminates [of new_binary_decoder ?b ?b]
  have "length (snd (scan_step ?b)) = length ?b - 15 \<or> length (snd (scan_step ?b)) = length ?b - 1"
    using ft [THEN conjunct2, THEN conjunct2, rule_format, OF l] .
  then have "length (snd (scan_step ?b)) = 15" using s by simp
  then show ?thesis using ft [THEN conjunct1] s by simp
qed

section \<open>The binary path of the serial page\<close>

lemma binary_buffer_step_cases:
  "(\<exists>d. binary_buffer_step buf = (Some d, drop FRAME_LEN buf))
   \<or> binary_buffer_step buf = (None, drop 1 buf)"
  by (simp add: binary_buffer_step_def Let_def)

lemma binary_buffer_loop_short:
  "length buf < FRAME_LEN \<Longrightarrow> binary_buffer_loop buf emitted = Some (emitted, buf)"
  by (subst binary_buffer_loop.simps) simp

lemma binary_buffer_loop_total:
  "\<exists>out rest. binary_buffer_loop buf emitted = Some (out, rest) \<and> length rest < FRAME_LEN"
proof (induction buf arbitrary: emitted rule: length_induct)
  case (1 buf)
  show ?case
  proof (cases "FRAME_LEN \<le> length buf")
    case False
    then show ?thesis by (simp add: binary_buffer_loop_short)
  next
    case True
    obtain fr buf' where st: "binary_buffer_step buf = (fr, buf')"
      by (cases "binary_buffer_step buf")
    have "buf' = drop 1 buf \<or> buf' = drop FRAME_LEN buf"
      using binary_buffer_step_cases [of buf] st by auto
    with True have "length buf' < length buf" by (auto simp: FRAME_LEN_def)
    with 1 have IH: "\<And>e. \<exists>out rest. binary_buffer_loop buf' e = Some (out, rest)
        \<and> length rest < FRAME_LEN"
      by blast
    show ?thesis
      by (subst binary_buffer_loop.simps) (use True st IH in \<open>auto split: option.splits\<close>)
  qed
qed

text \<open>The serial page of the final monitor terminates in the same way.\<close>

lemma process_binary_buffer_terminates:
  "\<exists>emitted rest. process_binary_buffer binary_buffer data = Some (emitted, rest)
     \<and> length rest < 15"
  using binary_buffer_loop_total [of "binary_buffer @ data" "[]"]
  by (simp add: process_binary_buffer_def FRAME_LEN_def)

text \<open>And it decodes a valid frame to one dictionary, with the time in seconds.\<close>

lemma process_binary_buffer_valid_frame:
  assumes len: "length data = 15" and head: "data ! 0 = 0xA5" and tail: "data ! 14 = 0x5A"
    and sum: "unat (data ! 13) = sum_list (map unat (take 12 (drop 1 data))) mod 256"
  shows "process_binary_buffer [] data =
           Some ([unpack_data_dict (take 12 (drop 1 data))], [])"
proof -
  have "binary_buffer_step data =
      (Some (unpack_data_dict (take 12 (drop 1 data))), drop FRAME_LEN data)"
    using head tail sum
    unfolding binary_buffer_step_def Let_def payload_of_frame and_255_mod
    by (simp add: FRAME_LEN_def HEAD_def TAIL_def)
  moreover have "drop FRAME_LEN data = []" using len by (simp add: FRAME_LEN_def)
  ultimately show ?thesis
    unfolding process_binary_buffer_def
    using len by (subst binary_buffer_loop.simps) (simp add: binary_buffer_loop_short FRAME_LEN_def)
qed

text \<open>The frame with time 1 ms, raw values 2, 3, 4 and code 5: the time is the float
  \<open>1 / 1000.0\<close> and the voltage the float \<open>(5 / 4095.0) * 3.3\<close>.\<close>

lemma process_binary_buffer_example:
  "process_binary_buffer [] [0xA5, 1, 0, 0, 0, 2, 0, 3, 0, 4, 0, 5, 0, 15, 0x5A] =
     Some ([\<lparr>dd_t = 1152921504606847 / 1152921504606846976,
              dd_voltage = 290341953998977 / 72057594037927936,
              dd_uric = 2, dd_ascorbic = 3, dd_glucose = 4\<rparr>], [])"
proof -
  let ?data = "[0xA5, 1, 0, 0, 0, 2, 0, 3, 0, 4, 0, 5, 0, 15, 0x5A] :: byte list"
  have h: "length ?data = 15" "?data ! 0 = 0xA5" "?data ! 14 = 0x5A"
    "unat (?data ! 13) = sum_list (map unat (take 12 (drop 1 ?data))) mod 256"
    by simp_all
  have t: "round_double (1 / 1000) = 1152921504606847 / 1152921504606846976"
    by (simp add: double_eval cong: let_weak_cong)
  have v: "round_double (round_double (1 / 819) * round_double (33 / 10))
      = 290341953998977 / 72057594037927936"
    by (simp add: double_eval cong: let_weak_cong)
  have "unpack_data_dict (take 12 (drop 1 ?data)) =
      \<lparr>dd_t = 1152921504606847 / 1152921504606846976,
       dd_voltage = 290341953998977 / 72057594037927936,
       dd_uric = 2, dd_ascorbic = 3, dd_glucose = 4\<rparr>"
    by (simp add: unpack_data_dict_def t v)
  then show ?thesis using process_binary_buffer_valid_frame [OF h] by simp
qed

lemma process_binary_buffer_corrupted_frame:
  assumes len: "length data = 15"
    and sum: "unat (data ! 13) = sum_list (map unat (take 12 (drop 1 data))) mod 256"
    and ib: "1 \<le> i" "i \<le> 12" "b \<noteq> data ! i"
  shows "process_binary_buffer [] (data[i := b]) = Some ([], drop 1 (data[i := b]))"
proof -
  let ?d = "data[i := b]"
  let ?p = "take 12 (drop 1 data)"
  have p: "take 12 (drop 1 ?d) = ?p[i - 1 := b]"
    using ib by (simp add: drop_update_swap take_update_swap)
  have ne: "sum_list (map unat (?p[i - 1 := b])) mod 256 \<noteq> sum_list (map unat ?p) mod 256"
    using ib len by (intro checksum_update) auto
  have "?d ! 13 = data ! 13" using ib by simp
  then have "binary_buffer_step ?d = (None, drop 1 ?d)"
    using sum p ne
    unfolding binary_buffer_step_def Let_def payload_of_frame and_255_mod
    by (simp add: FRAME_LEN_def)
  then show ?thesis
    unfolding process_binary_buffer_def
    using len by (subst binary_buffer_loop.simps) (simp add: binary_buffer_loop_short FRAME_LEN_def)
qed

section \<open>Polling interval of the receive worker\<close>

lemma read_data_invariant:
  assumes "0 \<le> base_interval w" "base_interval w \<le> current_interval w" "current_interval w \<le> 500"
  shows "base_interval (fst (read_data w ps)) = base_interval w
     \<and> base_interval w \<le> current_interval (fst (read_data w ps))
     \<and> current_interval (fst (read_data w ps)) \<le> 500
     \<and> (\<forall>ms \<in> set (snd (read_data w ps)). base_interval w \<le> ms \<and> ms \<le> 500)"
  using assms
proof (induction ps arbitrary: w)
  case Nil
  then show ?case by simp
next
  case (Cons p ps)
  show ?case
  proof (cases "running w")
    case False
    with Cons.prems show ?thesis by simp
  next
    case True
    obtain w' chunk slept where st: "read_step w p = (w', chunk, slept)" by (cases "read_step w p")
    have inv: "base_interval w' = base_interval w" "0 \<le> base_interval w'"
      "base_interval w' \<le> current_interval w'" "current_interval w' \<le> 500"
      and sl: "\<And>ms. slept = Some ms \<Longrightarrow> base_interval w \<le> ms \<and> ms \<le> 500"
      using st Cons.prems by (auto simp: read_step_def Let_def split: poll.splits)
    obtain w'' sleeps where rd: "read_data w' ps = (w'', sleeps)" by (cases "read_data w' ps")
    from Cons.IH [OF inv(2,3,4)] rd inv(1)
    have "base_interval w'' = base_interval w \<and> base_interval w \<le> current_interval w'' \<and> current_interval w'' \<le> 500
        \<and> (\<forall>ms \<in> set sleeps. base_interval w \<le> ms \<and> ms \<le> 500)" by simp
    then show ?thesis using True st rd sl by (auto split: option.splits)
  qed
qed

text \<open>
  Claim C9.  A worker is created for a Bluetooth-flagged or a wired link and started; it
  then meets any sequence of poll outcomes.  Its base interval is 20 ms (Bluetooth) or
  5 ms (wired); its polling interval stays between the base interval and 500 ms, and so
  does every sleep between two polls.  An empty poll sets the interval to the minimum of
  its double and 500; a poll that reads data sets it to the base interval.
\<close>

theorem polling_interval_bounds:
  "base_interval (fst (start_worker (new_SerialWorker bt) polls)) = (if bt then 20 else 5)
   \<and> base_interval (fst (start_worker (new_SerialWorker bt) polls))
        \<le> current_interval (fst (start_worker (new_SerialWorker bt) polls))
   \<and> current_interval (fst (start_worker (new_SerialWorker bt) polls)) \<le> 500
   \<and> (\<forall>ms \<in> set (snd (start_worker (new_SerialWorker bt) polls)).
         (if bt then 20 else 5) \<le> ms \<and> ms \<le> 500)
   \<and> current_interval (fst (read_step w Empty)) = min (current_interval w * 2) 500
   \<and> current_interval (fst (read_step w (Data bs))) = base_interval w"
proof -
  let ?w = "(new_SerialWorker bt)\<lparr>running := True\<rparr>"
  have b: "base_interval ?w = (if bt then 20 else 5)" by (simp add: new_SerialWorker_def)
  have "0 \<le> base_interval ?w" "base_interval ?w \<le> current_interval ?w" "current_interval ?w \<le> 500"
    by (simp_all add: new_SerialWorker_def)
  from read_data_invariant [OF this, of polls] b
  show ?thesis by (simp add: start_worker_def read_step_def)
qed

theorem polling_interval_bounds_witness:
  "snd (start_worker (new_SerialWorker True) [Empty, Empty, Empty, Empty, Empty, Data [1], Empty])
     = [40, 80, 160, 320, 500, 20, 40]
   \<and> list_all (\<lambda>ms. 20 \<le> ms \<and> ms \<le> 500)
       (snd (start_worker (new_SerialWorker True)
          [Empty, Empty, Empty, Empty, Empty, Data [1], Empty]))"
proof -
  have e: "snd (start_worker (new_SerialWorker True) [Empty, Empty, Empty, Empty, Empty, Data [1], Empty])
     = [40, 80, 160, 320, 500, 20, 40]"
    by (simp add: start_worker_def new_SerialWorker_def read_step_def)
  have "\<forall>ms \<in> set (snd (start_worker (new_SerialWorker True)
          [Empty, Empty, Empty, Empty, Empty, Data [1], Empty])).
        (if True then 20 else 5) \<le> ms \<and> ms \<le> 500"
    using polling_interval_bounds [of True "[Empty, Empty, Empty, Empty, Empty, Data [1], Empty]",
        THEN conjunct2, THEN conjunct2, THEN conjunct2, THEN conjunct1] .
  then have "list_all (\<lambda>ms. 20 \<le> ms \<and> ms \<le> 500)
       (snd (start_worker (new_SerialWorker True)
          [Empty, Empty, Empty, Empty, Empty, Data [1], Empty]))"
    unfolding list_all_iff by simp
  then show ?thesis using e by blast
qed

section \<open>Median filter\<close>

lemma median_window:
  fixes xs :: "rat list"
  assumes "xs \<noteq> []"
  defines "buf \<equiv> (if int (length xs) > 3 * 2 then drop (nat (int (length xs) - 3 * 2)) xs else xs)"
  shows "0 < min 3 (int (length buf))"
    and "drop (length buf - nat (min 3 (int (length buf)))) buf = drop (length xs - 3) xs"
proof -
  consider "6 < length xs" | "3 \<le> length xs" "length xs \<le> 6" | "length xs < 3" by linarith
  then have "0 < min 3 (int (length buf))
     \<and> drop (length buf - nat (min 3 (int (length buf)))) buf = drop (length xs - 3) xs"
  proof cases
    case 1
    then have b: "buf = drop (length xs - 6) xs" by (simp add: buf_def nat_diff_distrib')
    from 1 have l: "length buf = 6" unfolding b by simp
    show ?thesis unfolding l using 1 by (simp add: b)
  next
    case 2
    then have b: "buf = xs" by (simp add: buf_def)
    from 2 have "min 3 (int (length xs)) = 3" by simp
    then show ?thesis unfolding b by simp
  next
    case 3
    then have b: "buf = xs" by (simp add: buf_def)
    from 3 have "min 3 (int (length xs)) = int (length xs)" by simp
    then show ?thesis unfolding b using 3 assms(1) by simp
  qed
  then show "0 < min 3 (int (length buf))"
    and "drop (length buf - nat (min 3 (int (length buf)))) buf = drop (length xs - 3) xs"
    by simp_all
qed

lemma median_step:
  assumes ft: "filter_type (cfg_filt self) = MEDIAN" and ws: "window_size (cfg_filt self) = 3"
    and buf: "filter_buffers self key = Some buf"
  shows "\<exists>self'. apply_filter rnd self key v =
           Inr (sort (drop (length (buf @ [v]) - 3) (buf @ [v]))
                  ! (length (drop (length (buf @ [v]) - 3) (buf @ [v])) div 2), self')"
proof -
  define xs where "xs = buf @ [v]"
  define b where "b = (if int (length xs) > 3 * 2 then drop (nat (int (length xs) - 3 * 2)) xs else xs)"
  have ne: "xs \<noteq> []" by (simp add: xs_def)
  have w1: "\<not> min 3 (int (length b)) \<le> 0"
    using median_window(1) [OF ne] unfolding b_def by linarith
  have w2: "drop (length b - nat (min 3 (int (length b)))) b = drop (length xs - 3) xs"
    using median_window(2) [OF ne] unfolding b_def .
  have "apply_filter rnd self key v =
      Inr (sort (drop (length xs - 3) xs) ! (length (drop (length xs - 3) xs) div 2),
           self\<lparr>filter_buffers := (filter_buffers self)(key \<mapsto> b)\<rparr>)"
    unfolding apply_filter_def Let_def ft ws buf option.case
    unfolding xs_def [symmetric] b_def [symmetric]
    using w1 by (simp only: w2 FilterType.distinct if_False if_True refl length_sort)
  then show ?thesis unfolding xs_def by blast
qed

text \<open>
  Claim C3, as the specification states it, fails: the outputs for 5, 1, 9, 2, 8 are not
  5, 1, 5, 1, 8.
\<close>

theorem median_filter_spec_outputs_counterexample:
  "map_sum id fst (apply_filter_seq round_double (new_monitor round_double median3_cfg) ''uric'' [5, 1, 9, 2, 8])
     \<noteq> Inr [5, 1, 5, 1, 8]"
  by (simp add: new_monitor_def apply_filter_def Let_def AppConfig_m_default_def median3_cfg_def)

text \<open>
  Claim C3, amended.  Starting from an empty history, the median filter with window 3
  turns 5, 1, 9, 2, 8 into 5, 5, 5, 2, 8.  In general, with the median filter and window 3
  selected, the output for a new value \<open>v\<close> after the history \<open>buf\<close> is the element at
  index \<open>len // 2\<close> of the sorted list of the last (up to) three values of \<open>buf\<close>
  followed by \<open>v\<close>: the middle one of three, the larger one of two.
\<close>

theorem median_filter_outputs:
  "map_sum id fst (apply_filter_seq rnd (new_monitor rnd median3_cfg) ''uric'' [5, 1, 9, 2, 8])
     = Inr [5, 5, 5, 2, 8]
   \<and> (filter_type (cfg_filt self) = MEDIAN \<and> window_size (cfg_filt self) = 3
        \<and> filter_buffers self key = Some buf \<longrightarrow>
       (\<exists>self'. apply_filter rnd self key v =
           Inr (sort (drop (length (buf @ [v]) - 3) (buf @ [v]))
                  ! (length (drop (length (buf @ [v]) - 3) (buf @ [v])) div 2), self')))"
proof (intro conjI impI)
  show "map_sum id fst (apply_filter_seq rnd (new_monitor rnd median3_cfg) ''uric'' [5, 1, 9, 2, 8])
     = Inr [5, 5, 5, 2, 8]"
    by (simp add: new_monitor_def apply_filter_def Let_def AppConfig_m_default_def
        median3_cfg_def)
next
  assume "filter_type (cfg_filt self) = MEDIAN \<and> window_size (cfg_filt self) = 3
        \<and> filter_buffers self key = Some buf"
  then show "\<exists>self'. apply_filter rnd self key v =
           Inr (sort (drop (length (buf @ [v]) - 3) (buf @ [v]))
                  ! (length (drop (length (buf @ [v]) - 3) (buf @ [v])) div 2), self')"
    by (intro median_step) simp_all
qed

theorem median_filter_outputs_witness:
  "filter_type (cfg_filt (new_monitor round_double median3_cfg)) = MEDIAN
   \<and> window_size (cfg_filt (new_monitor round_double median3_cfg)) = 3
   \<and> filter_buffers (new_monitor round_double median3_cfg) ''uric'' = Some []
   \<and> (\<exists>self'. apply_filter round_double (new_monitor round_double median3_cfg) ''uric'' 5 = Inr (5, self'))"
proof -
  have h: "filter_type (cfg_filt (new_monitor round_double median3_cfg)) = MEDIAN
   \<and> window_size (cfg_filt (new_monitor round_double median3_cfg)) = 3
   \<and> filter_buffers (new_monitor round_double median3_cfg) ''uric'' = Some []"
    by (simp add: new_monitor_def median3_cfg_def AppConfig_m_default_def)
  from median_filter_outputs [where self = "new_monitor round_double median3_cfg"
      and key = "''uric''" and buf = "[]" and v = 5 and rnd = round_double,
      THEN conjunct2, rule_format, OF h]
  show ?thesis using h by simp
qed

section \<open>CV-cycle segmentation of the synthetic sweep\<close>

lemma length_21_explicit:
  assumes "length xs = 21"
  obtains g0 g1 g2 g3 g4 g5 g6 g7 g8 g9 g10 g11 g12 g13 g14 g15 g16 g17 g18 g19 g20
  where "xs = [g0, g1, g2, g3, g4, g5, g6, g7, g8, g9, g10, g11, g12, g13, g14, g15, g16, g17, g18, g19, g20]"
  using assms by (auto simp: numeral_eq_Suc length_Suc_conv)

text \<open>
  Claim C5.  The sweep voltages are paired with any 21 glucose values and segmented with
  noise threshold 0.002 V and minimum 10 points.  The result is exactly two cycles: the
  samples 0 to 10 (the rising run) and the samples 10 to 20 (the falling run), 11 points
  each.  The two index ranges share sample 10 only, the turning point at 1.0 V, which is
  the last point of the first cycle and the first point of the second.
\<close>

theorem build_cv_cycles_sweep:
  assumes "length gs = 21"
  shows "build_cv_cycles (zip sweep_voltages gs) (2 / 1000) 10
           = [take 11 (zip sweep_voltages gs), drop 10 (zip sweep_voltages gs)]
         \<and> length (take 11 (zip sweep_voltages gs)) = 11
         \<and> length (drop 10 (zip sweep_voltages gs)) = 11
         \<and> last (take 11 (zip sweep_voltages gs)) = (1, gs ! 10)
         \<and> hd (drop 10 (zip sweep_voltages gs)) = (1, gs ! 10)"
proof -
  from assms obtain g0 g1 g2 g3 g4 g5 g6 g7 g8 g9 g10 g11 g12 g13 g14 g15 g16 g17 g18 g19 g20
    where "gs = [g0, g1, g2, g3, g4, g5, g6, g7, g8, g9, g10, g11, g12, g13, g14, g15, g16,
                 g17, g18, g19, g20]"
    by (rule length_21_explicit)
  then show ?thesis
    by (simp add: build_cv_cycles_def sweep_voltages_def cv_step_def Let_def)
qed

theorem build_cv_cycles_sweep_witness:
  "length (map rat_of_nat [0 ..< 21]) = 21
   \<and> length (build_cv_cycles (zip sweep_voltages (map rat_of_nat [0 ..< 21])) (2 / 1000) 10) = 2
   \<and> hd (drop 10 (zip sweep_voltages (map rat_of_nat [0 ..< 21]))) = (1, 10)"
proof -
  have l: "length (map rat_of_nat [0 ..< 21]) = 21" by simp
  have "map rat_of_nat [0 ..< 21] ! 10 = 10" by simp
  then show ?thesis using build_cv_cycles_sweep [OF l] by simp
qed

section \<open>Properties of the configuration loaders\<close>

lemma bind_err_Inr_iff:
  "bind_err m f = Inr y \<longleftrightarrow> (\<exists>x. m = Inr x \<and> f x = Inr y)"
  by (cases m) (simp_all add: bind_err_def)

lemma FilterType_of_value_none:
  assumes "\<forall>ft. s \<noteq> filter_type_value ft"
  shows "FilterType_of_value s = None"
proof -
  have "filter_type_value NONE \<noteq> s" "filter_type_value MOVING_AVG \<noteq> s"
    "filter_type_value MEDIAN \<noteq> s" "filter_type_value KALMAN \<noteq> s"
    using assms by metis+
  then show ?thesis
    by (simp add: FilterType_of_value_def filter_types_def del: filter_type_value.simps)
qed

lemma safe_filter_type_none:
  assumes "\<forall>ft. s \<noteq> filter_type_value ft \<and> s \<noteq> filter_type_name ft"
  shows "safe_filter_type (PStr s) d = d"
proof -
  have "s \<noteq> filter_type_value NONE" "s \<noteq> filter_type_value MOVING_AVG"
    "s \<noteq> filter_type_value MEDIAN" "s \<noteq> filter_type_value KALMAN"
    "s \<noteq> filter_type_name NONE" "s \<noteq> filter_type_name MOVING_AVG"
    "s \<noteq> filter_type_name MEDIAN" "s \<noteq> filter_type_name KALMAN"
    using assms by metis+
  then show ?thesis
    by (simp add: safe_filter_type_def filter_types_def
        del: filter_type_value.simps filter_type_name.simps)
qed

lemma safe_dataclass_update_lookup:
  "fmlookup (safe_dataclass_update cur (PDict p)) k =
     (if k |\<in>| fmdom cur \<and> k |\<in>| fmdom p then fmlookup p k else fmlookup cur k)"
  by (simp add: safe_dataclass_update_def Let_def)

lemma FilterConfig_lookup:
  "fmlookup FilterConfig ''filter_type'' = Some (PFilterType MOVING_AVG)"
  "fmlookup FilterConfig ''window_size'' = Some (PInt 5)"
  by (simp_all add: FilterConfig_def)

lemma filt_load:
  "filt (load (Some (Document (PDict raw)))) =
     safe_dataclass_update FilterConfig (coerce_filt_raw FilterConfig (dict_get raw ''filt'' (PDict fmempty)))"
  by (simp add: load_def merge_inplace_def Let_def AppConfig_default_def)

lemma load_invalid_filter_type:
  assumes "fmlookup raw ''filt'' = Some (PDict f)"
    and "fmlookup f ''filter_type'' = Some (PStr s)"
    and "\<forall>ft. s \<noteq> filter_type_value ft"
    and "fmlookup f ''window_size'' = Some w"
  shows "fmlookup (filt (load (Some (Document (PDict raw))))) ''filter_type'' = Some (PFilterType MOVING_AVG)
       \<and> fmlookup (filt (load (Some (Document (PDict raw))))) ''window_size'' = Some w"
proof -
  have n: "FilterType_of_value s = None" using assms(3) by (rule FilterType_of_value_none)
  have c: "coerce_filt_raw FilterConfig (dict_get raw ''filt'' (PDict fmempty))
      = PDict (fmupd ''filter_type'' (PFilterType MOVING_AVG) f)"
    using assms(1,2) n by (simp add: coerce_filt_raw_def dict_get_def FilterConfig_lookup)
  have d: "''window_size'' |\<in>| fmdom FilterConfig" "''filter_type'' |\<in>| fmdom FilterConfig"
    by (rule fmdomI, rule FilterConfig_lookup)+
  have d2: "''window_size'' |\<in>| fmdom f" using assms(4) by (rule fmdomI)
  show ?thesis
    unfolding filt_load c safe_dataclass_update_lookup
    using d d2 assms(4) by simp
qed

text \<open>The loader of \<open>config.py\<close> keeps a value of the wrong type as it is: no exception,
  and no default either.\<close>

lemma load_keeps_mistyped_value:
  "fmlookup (ui (load (Some (Document (PDict (fmap_of_list
       [(''ui'', PDict (fmap_of_list [(''max_table_rows'', PStr ''abc'')]))]))))))
     ''max_table_rows'' = Some (PStr ''abc'')"
  by (simp add: load_def merge_inplace_def Let_def AppConfig_default_def dict_get_def
      safe_dataclass_update_def UIConfig_def)

text \<open>\<open>int\<close> returns an integer as it is, and \<open>int("abc")\<close> raises \<open>ValueError\<close>.\<close>

lemma py_int_PInt: "py_int int_of_other (PInt n) = Inr n"
  by (simp add: py_int_def)

lemma py_int_abc: "py_int int_of_other (PStr ''abc'') = Inl ValueError"
  by (simp add: py_int_def int_of_str_def int_of_ascii_def strip_def is_space_def digit_of_def
      Let_def)

text \<open>
  Claim C2 fails on the loader of the final monitor.  The configuration file holds the
  JSON document \<open>{"ui": {"max_table_rows": "abc"}}\<close>: a non-numeric string where an
  integer is expected.  \<open>int("abc")\<close> raises \<open>ValueError\<close>, nothing catches it, and the
  exception leaves \<open>AppConfig.load\<close>, whatever the library functions for \<open>int\<close>, \<open>float\<close>
  and \<open>str\<close> do.
\<close>

theorem load_m_raises_on_mistyped_field:
  "fst (load_m int_of_other float_of_str render (Some (Document (PDict (fmap_of_list
       [(''ui'', PDict (fmap_of_list [(''max_table_rows'', PStr ''abc'')]))])))))
     = Inl ValueError"
  by (simp add: load_m_def load_ui_def bind_err_def obj_get_def dict_get_def
      AppConfig_m_default_def py_int_def int_of_str_def int_of_ascii_def strip_def is_space_def
      digit_of_def Let_def)

text \<open>A document that is not a JSON object makes the loader of the final monitor raise as
  well: a list has no \<open>get\<close>.\<close>

lemma load_m_raises_on_non_object:
  "fst (load_m int_of_other float_of_str render (Some (Document (PList [])))) = Inl AttributeError"
  by (simp add: load_m_def load_ui_def bind_err_def obj_get_def)

subsection \<open>An invalid filter type next to a valid window size\<close>

text \<open>The loader of the final monitor keeps the window size of such a \<open>filt\<close> section and
  falls back to the default filter type, provided that the conversions of all the other
  fields return: \<open>u\<close>, \<open>sv\<close> and \<open>p\<close> are the sections that \<open>load\<close> reads from the rest
  of the document, \<open>q\<close> and \<open>r\<close> the floats it reads for \<open>kalman_Q\<close> and \<open>kalman_R\<close>.\<close>

lemma load_m_keeps_window_size:
  assumes flt: "fmlookup raw ''filt'' = Some (PDict f)"
    and ft: "fmlookup f ''filter_type'' = Some (PStr s)"
    and bad: "\<forall>ft. s \<noteq> filter_type_value ft \<and> s \<noteq> filter_type_name ft"
    and ws: "fmlookup f ''window_size'' = Some (PInt n)"
    and q: "py_float float_of_str (dict_get f ''kalman_Q'' (PFloat (round_double (1 / 100)))) = Inr q"
    and r: "py_float float_of_str (dict_get f ''kalman_R'' (PFloat (round_double (1 / 10)))) = Inr r"
    and u: "load_ui int_of_other (PDict raw) (ui_m AppConfig_m_default) = Inr u"
    and sv: "load_save int_of_other render (PDict raw) (save_m AppConfig_m_default) = Inr sv"
    and p: "load_proto float_of_str render (PDict raw) (proto_m AppConfig_m_default) = Inr p"
  shows "fst (load_m int_of_other float_of_str render (Some (Document (PDict raw))))
           = Inr \<lparr>ui_m = u,
                  filt_m = \<lparr>filter_type = MOVING_AVG, window_size = n, kalman_Q = q,
                            kalman_R = r\<rparr>,
                  save_m = sv, proto_m = p\<rparr>"
proof -
  have d: "filt_m AppConfig_m_default
      = \<lparr>filter_type = MOVING_AVG, window_size = 5, kalman_Q = round_double (1 / 100),
         kalman_R = round_double (1 / 10)\<rparr>"
    by (simp add: AppConfig_m_default_def)
  have "load_filt int_of_other float_of_str (PDict raw) (filt_m AppConfig_m_default)
      = Inr \<lparr>filter_type = MOVING_AVG, window_size = n, kalman_Q = q, kalman_R = r\<rparr>"
    unfolding d load_filt_def
    using flt ft ws q r safe_filter_type_none [OF bad, of MOVING_AVG]
    by (simp add: bind_err_def obj_get_def dict_get_def py_int_def Let_def)
  then show ?thesis
    using u sv p by (simp add: load_m_def bind_err_def Let_def AppConfig_m_default_def)
qed

text \<open>The document \<open>{"filt": {"filter_type": "bogus", "window_size": 7}}\<close>, for one.\<close>

lemma load_m_bogus_filter_type:
  "fst (load_m int_of_other float_of_str render (Some (Document (PDict (fmap_of_list
       [(''filt'', PDict (fmap_of_list
          [(''filter_type'', PStr ''bogus''), (''window_size'', PInt 7)]))])))))
     = Inr (AppConfig_m_default\<lparr>filt_m := (filt_m AppConfig_m_default)\<lparr>window_size := 7\<rparr>\<rparr>)"
proof -
  have sft: "safe_filter_type (PStr ''bogus'') MOVING_AVG = MOVING_AVG"
    by (simp add: safe_filter_type_def filter_types_def)
  show ?thesis
    by (simp add: load_m_def load_ui_def load_filt_def load_save_def load_proto_def
        bind_err_def obj_get_def dict_get_def py_int_def py_float_def py_bool_def py_str_def
        AppConfig_m_default_def Let_def sft del: filter_type_value.simps)
qed

text \<open>
  Claim C7 fails on the loader of the final monitor.  The configuration file holds the
  JSON document
  \<open>{"filt": {"filter_type": "bogus", "window_size": 7}, "ui": {"max_table_rows": "abc"}}\<close>:
  the \<open>filt\<close> section has a \<open>filter_type\<close> that matches no filter type and the well-formed
  \<open>window_size\<close> 7.  The loader of \<open>config.py\<close> returns a configuration whose
  \<open>filter_type\<close> is the default \<open>MOVING_AVG\<close> and whose \<open>window_size\<close> is 7.  The loader
  of the final monitor returns no configuration: \<open>int("abc")\<close> raises \<open>ValueError\<close> in the
  \<open>ui\<close> section, whatever the library functions do.  It does not return either when the
  mistyped field is a sibling of the same section, as in
  \<open>{"filt": {"filter_type": "bogus", "window_size": 7, "kalman_Q": null}}\<close>, where
  \<open>float(None)\<close> raises \<open>TypeError\<close>.  The unguarded conversions are those of claim C2.
\<close>

theorem load_m_invalid_filter_type_raises:
  "fst (load_m int_of_other float_of_str render (Some (Document (PDict (fmap_of_list
       [(''filt'', PDict (fmap_of_list
          [(''filter_type'', PStr ''bogus''), (''window_size'', PInt 7)])),
        (''ui'', PDict (fmap_of_list [(''max_table_rows'', PStr ''abc'')]))])))))
     = Inl ValueError
   \<and> fst (load_m int_of_other float_of_str render (Some (Document (PDict (fmap_of_list
       [(''filt'', PDict (fmap_of_list
          [(''filter_type'', PStr ''bogus''), (''window_size'', PInt 7),
           (''kalman_Q'', PNone)]))])))))
     = Inl TypeError
   \<and> fmlookup (filt (load (Some (Document (PDict (fmap_of_list
       [(''filt'', PDict (fmap_of_list
          [(''filter_type'', PStr ''bogus''), (''window_size'', PInt 7)])),
        (''ui'', PDict (fmap_of_list [(''max_table_rows'', PStr ''abc'')]))]))))))
       ''filter_type'' = Some (PFilterType MOVING_AVG)
   \<and> fmlookup (filt (load (Some (Document (PDict (fmap_of_list
       [(''filt'', PDict (fmap_of_list
          [(''filter_type'', PStr ''bogus''), (''window_size'', PInt 7)])),
        (''ui'', PDict (fmap_of_list [(''max_table_rows'', PStr ''abc'')]))]))))))
       ''window_size'' = Some (PInt 7)"
proof (intro conjI)
  let ?f = "fmap_of_list [(''filter_type'', PStr ''bogus''), (''window_size'', PInt 7)]"
  let ?raw = "fmap_of_list
     [(''filt'', PDict ?f), (''ui'', PDict (fmap_of_list [(''max_table_rows'', PStr ''abc'')]))]"
  show "fst (load_m int_of_other float_of_str render (Some (Document (PDict ?raw))))
      = Inl ValueError"
    by (simp add: load_m_def load_ui_def bind_err_def obj_get_def dict_get_def
        AppConfig_m_default_def Let_def py_int_PInt py_int_abc)
  have sft: "safe_filter_type (PStr ''bogus'') MOVING_AVG = MOVING_AVG"
    by (simp add: safe_filter_type_def filter_types_def)
  show "fst (load_m int_of_other float_of_str render (Some (Document (PDict (fmap_of_list
       [(''filt'', PDict (fmap_of_list
          [(''filter_type'', PStr ''bogus''), (''window_size'', PInt 7),
           (''kalman_Q'', PNone)]))])))))
     = Inl TypeError"
    by (simp add: load_m_def load_ui_def load_filt_def bind_err_def obj_get_def dict_get_def
        py_int_def py_float_def AppConfig_m_default_def Let_def sft
        del: filter_type_value.simps)
  have h1: "fmlookup ?raw ''filt'' = Some (PDict ?f)" by simp
  have h2: "fmlookup ?f ''filter_type'' = Some (PStr ''bogus'')" by simp
  have h3: "\<forall>ft. ''bogus'' \<noteq> filter_type_value ft"
  proof
    fix ft show "''bogus'' \<noteq> filter_type_value ft" by (cases ft) simp_all
  qed
  have h4: "fmlookup ?f ''window_size'' = Some (PInt 7)" by simp
  note l = load_invalid_filter_type [OF h1 h2 h3 h4]
  from l show "fmlookup (filt (load (Some (Document (PDict ?raw))))) ''filter_type''
      = Some (PFilterType MOVING_AVG)"
    by (rule conjunct1)
  from l show "fmlookup (filt (load (Some (Document (PDict ?raw))))) ''window_size''
      = Some (PInt 7)"
    by (rule conjunct2)
qed

subsection \<open>A configuration file that does not parse\<close>

text \<open>
  Claim C10.  In the final monitor, when the configuration file exists but its text does
  not parse, \<open>load\<close> returns the all-defaults configuration and has overwritten the file:
  the text that did not parse is gone, and the file holds the serialized defaults, which
  is the document written out below (\<open>0.01\<close> and \<open>0.1\<close> are the floats nearest to
  \<open>1 / 100\<close> and \<open>1 / 10\<close>; the filter type is written as its value, the label of
  \<open>MOVING_AVG\<close>; a tuple of keys is written as a list).
\<close>

theorem load_m_overwrites_unparseable_file:
  "load_m int_of_other float_of_str render (Some (Unparseable txt))
     = (Inr \<lparr>ui_m = \<lparr>ui_update_interval_ms = 50, max_table_rows = 2000\<rparr>,
             filt_m = \<lparr>filter_type = MOVING_AVG, window_size = 5,
                       kalman_Q = round_double (1 / 100), kalman_R = round_double (1 / 10)\<rparr>,
             save_m = \<lparr>auto_save = False, save_interval_ms = 1000,
                       save_path = ''./serial_data''\<rparr>,
             proto_m = \<lparr>time_keys = [''t'', ''time'', ''sec'', ''seconds'', ''timestamp''],
                        voltage_keys = [''voltage'', ''V'', ''v''],
                        uric_keys = [''uric'', ''uric_uA'', ''UA'', ''uA_uric''],
                        ascorbic_keys = [''ascorbic'', ''ascorbic_uA'', ''AA'', ''uA_ascorbic''],
                        glucose_keys = [''glucose'', ''glucose_mA'', ''GLU'', ''mA_glucose''],
                        time_unit = ''auto'', voltage_scale = 1, uric_scale = 1,
                        ascorbic_scale = 1, glucose_scale = 1\<rparr>\<rparr>,
        Some (Document (PDict (fmap_of_list
          [(''ui'', PDict (fmap_of_list
              [(''ui_update_interval_ms'', PInt 50), (''max_table_rows'', PInt 2000)])),
           (''filt'', PDict (fmap_of_list
              [(''filter_type'', PStr [CHR 0xE6, CHR 0xBB, CHR 0x91, CHR 0xE5, CHR 0x8A, CHR 0xA8,
                                      CHR 0xE5, CHR 0xB9, CHR 0xB3, CHR 0xE5, CHR 0x9D, CHR 0x87]),
               (''window_size'', PInt 5),
               (''kalman_Q'', PFloat (round_double (1 / 100))),
               (''kalman_R'', PFloat (round_double (1 / 10)))])),
           (''save'', PDict (fmap_of_list
              [(''auto_save'', PBool False), (''save_interval_ms'', PInt 1000),
               (''save_path'', PStr ''./serial_data'')])),
           (''proto'', PDict (fmap_of_list
              [(''time_keys'', PList [PStr ''t'', PStr ''time'', PStr ''sec'', PStr ''seconds'',
                                     PStr ''timestamp'']),
               (''voltage_keys'', PList [PStr ''voltage'', PStr ''V'', PStr ''v'']),
               (''uric_keys'', PList [PStr ''uric'', PStr ''uric_uA'', PStr ''UA'',
                                     PStr ''uA_uric'']),
               (''ascorbic_keys'', PList [PStr ''ascorbic'', PStr ''ascorbic_uA'', PStr ''AA'',
                                         PStr ''uA_ascorbic'']),
               (''glucose_keys'', PList [PStr ''glucose'', PStr ''glucose_mA'', PStr ''GLU'',
                                        PStr ''mA_glucose'']),
               (''time_unit'', PStr ''auto''), (''voltage_scale'', PFloat 1),
               (''uric_scale'', PFloat 1), (''ascorbic_scale'', PFloat 1),
               (''glucose_scale'', PFloat 1)]))]))))
   \<and> snd (load_m int_of_other float_of_str render (Some (Unparseable txt)))
       \<noteq> Some (Unparseable txt)"
  by (simp add: load_m_def save_to_m_def asdict_m_def AppConfig_m_default_def)

section \<open>Braces inside quoted strings\<close>

text \<open>
  Claim C4 fails on \<open>JsonFrameDecoder.feed\<close>.  Fed the text \<^verbatim>\<open>{"a":"}"}\<close> of a
  complete JSON object, the decoder counts the brace inside the string, cuts the span
  \<^verbatim>\<open>{"a":"}\<close> (the first seven characters), hands that to \<open>json.loads\<close> and then
  clears the buffer: whatever \<open>json.loads\<close> does, the object itself is never parsed and
  never emitted.
\<close>

theorem json_feed_brace_in_string:
  "json_feed loads new_json_decoder brace_in_string_text =
     ((case loads (take 7 brace_in_string_text) of Some obj \<Rightarrow> [obj] | None \<Rightarrow> []),
      \<lparr>text_buffer = []\<rparr>)"
  by (simp add: json_feed_def new_json_decoder_def brace_in_string_text_def Let_def
      split: option.splits)

text \<open>The text is a complete JSON object in the sense of \<open>object_text\<close>; the lemmas
  below show that the scanner of the final monitor handles every such text.\<close>

subsection \<open>The quote-aware scanner of the final monitor\<close>

text \<open>Inside a string the scanner changes nothing but its escape flag, and at the end of
  the string body the flag is down again.  Outside strings, at a positive depth, a sequence
  of items leaves every variable of the scanner as it was.\<close>

lemma scan_string_body:
  assumes "string_body s" and "in_str st" and "\<not> esc st"
  shows "foldl scan_char st (enumerate i s) = st"
  using assms
proof (induction s arbitrary: i rule: string_body.induct)
  case sb_empty
  then show ?case by simp
next
  case (sb_plain c s)
  have "scan_char st (i, c) = st" using sb_plain by (simp add: scan_char_def)
  then show ?case using sb_plain by simp
next
  case (sb_escape s c)
  have "scan_char (scan_char st (i, CHR 0x5C)) (Suc i, c) = st"
    using sb_escape.prems by (simp add: scan_char_def)
  then show ?case using sb_escape by simp
qed

lemma scan_json_items:
  assumes "json_items body" and "\<not> in_str st" and "\<not> esc st" and "0 < depth st"
  shows "foldl scan_char st (enumerate i body) = st"
  using assms
proof (induction body arbitrary: i st rule: json_items.induct)
  case ji_empty
  then show ?case by simp
next
  case (ji_plain c r)
  have "scan_char st (i, c) = st" using ji_plain by (simp add: scan_char_def)
  then show ?case using ji_plain by simp
next
  case (ji_string s r)
  let ?st1 = "st\<lparr>in_str := True\<rparr>"
  have 1: "scan_char st (i, CHR 0x22) = ?st1" using ji_string.prems by (simp add: scan_char_def)
  have 2: "foldl scan_char ?st1 (enumerate (Suc i) s) = ?st1"
    using ji_string.hyps(1) ji_string.prems by (intro scan_string_body) simp_all
  have 3: "scan_char ?st1 (Suc (i + length s), CHR 0x22) = st"
    using ji_string.prems by (simp add: scan_char_def)
  have 4: "foldl scan_char st (enumerate (Suc (Suc (i + length s))) r) = st"
    using ji_string.prems by (intro ji_string.IH)
  show ?case by (simp add: enumerate_append_eq 1 2 3 4)
next
  case (ji_braces inner r)
  let ?st1 = "st\<lparr>depth := Suc (depth st)\<rparr>"
  have 1: "scan_char st (i, CHR ''{'') = ?st1"
    using ji_braces.prems by (simp add: scan_char_def Let_def)
  have 2: "foldl scan_char ?st1 (enumerate (Suc i) inner) = ?st1"
    using ji_braces.prems by (intro ji_braces.IH(1)) simp_all
  have 3: "scan_char ?st1 (Suc (i + length inner), CHR ''}'') = st"
    using ji_braces.prems by (simp add: scan_char_def Let_def split: option.splits)
  have 4: "foldl scan_char st (enumerate (Suc (Suc (i + length inner))) r) = st"
    using ji_braces.prems by (intro ji_braces.IH(2))
  show ?case by (simp add: enumerate_append_eq 1 2 3 4)
qed

lemma scan_buffer_object:
  assumes "json_items body"
  shows "objs (scan_buffer (CHR ''{'' # body @ [CHR ''}''])) = [(0, Suc (length body))]"
proof -
  let ?st1 = "scan_init\<lparr>start := Some 0, depth := Suc 0\<rparr>"
  have 1: "scan_char scan_init (0, CHR ''{'') = ?st1"
    by (simp add: scan_char_def scan_init_def Let_def)
  have 2: "foldl scan_char ?st1 (enumerate (Suc 0) body) = ?st1"
    using assms by (intro scan_json_items) (simp_all add: scan_init_def)
  have 3: "objs (scan_char ?st1 (Suc (length body), CHR ''}'')) = [(0, Suc (length body))]"
    by (simp add: scan_char_def scan_init_def Let_def)
  show ?thesis by (simp add: scan_buffer_def enumerate_append_eq 1 2 3)
qed

text \<open>The scanner of the final monitor does what claim C4 says: the text of a complete
  JSON object is cut out whole, whatever braces, quotes and escapes its strings hold, and
  handed to \<open>json.loads\<close>; the buffer is left empty.\<close>

lemma process_json_buffer_object:
  assumes "object_text txt"
  shows "process_json_buffer loads txt =
           ((case loads txt of Some obj \<Rightarrow> [obj] | None \<Rightarrow> []), [])"
proof -
  from assms obtain body where t: "txt = CHR ''{'' # body @ [CHR ''}'']" and b: "json_items body"
    unfolding object_text_def by blast
  have sp: "objs (scan_buffer txt) = [(0, Suc (length body))]"
    unfolding t using b by (rule scan_buffer_object)
  have len: "length txt = Suc (Suc (length body))" by (simp add: t)
  show ?thesis
    unfolding process_json_buffer_def Let_def sp
    using len by (auto simp: t split: option.splits)
qed

lemma brace_in_string_text_object: "object_text brace_in_string_text"
proof -
  have "string_body [CHR ''a'']" by (intro string_body.intros) simp_all
  moreover have "string_body [CHR ''}'']" by (intro string_body.intros) simp_all
  moreover have "json_items []" by (rule ji_empty)
  ultimately have "json_items (CHR 0x22 # [CHR ''a''] @ CHR 0x22 # CHR '':'' # CHR 0x22 # [CHR ''}''] @ CHR 0x22 # [])"
    by (intro ji_string ji_plain) simp_all
  then show ?thesis
    unfolding object_text_def brace_in_string_text_def by simp
qed

section \<open>Kalman filter under a constant observation\<close>

subsection \<open>Runs of the filter\<close>

lemma kalman_update_keeps_x:
  assumes "kf_x kf = Some 100" and "kalman_update round_double kf 100 = Inr (y, kf')"
  shows "kf_x kf' = Some 100" and "y = 100"
  using assms
  by (auto simp: kalman_update_def Let_def round_double_0 round_double_100 split: if_splits)

lemma kalman_feed_add:
  "kalman_feed rnd (m + n) z kf =
     (case kalman_feed rnd m z kf of Inl e \<Rightarrow> Inl e | Inr kf' \<Rightarrow> kalman_feed rnd n z kf')"
  by (induction m arbitrary: kf) (auto split: sum.splits)

lemma kalman_feed_keeps_x:
  assumes "kf_x kf = Some 100" and "kalman_feed round_double n 100 kf = Inr kf'"
  shows "kf_x kf' = Some 100"
  using assms
proof (induction n arbitrary: kf)
  case 0
  then show ?case by simp
next
  case (Suc n)
  from Suc.prems(2) obtain y kf1 where u: "kalman_update round_double kf 100 = Inr (y, kf1)"
    and f: "kalman_feed round_double n 100 kf1 = Inr kf'"
    by (auto split: sum.splits)
  from kalman_update_keeps_x(1) [OF Suc.prems(1) u] f show ?case by (rule Suc.IH)
qed

lemma kalman_decreasing_step:
  assumes "kalman_decreasing rnd n z kf" and "k < n"
  shows "\<exists>a b. kalman_feed rnd k z kf = Inr a \<and> kalman_feed rnd (Suc k) z kf = Inr b
           \<and> kf_P b < kf_P a"
  using assms
proof (induction n arbitrary: kf k)
  case 0
  then show ?case by simp
next
  case (Suc n)
  from Suc.prems(1) obtain y kf1 where u: "kalman_update rnd kf z = Inr (y, kf1)"
    and lt: "kf_P kf1 < kf_P kf" and d: "kalman_decreasing rnd n z kf1"
    by (auto split: sum.splits)
  show ?case
  proof (cases k)
    case 0
    then show ?thesis using u lt by simp
  next
    case (Suc k')
    with Suc.prems(2) have "k' < n" by simp
    from Suc.IH [OF d this] show ?thesis using u Suc by simp
  qed
qed

lemma kalman_decreasing_chain:
  assumes "kalman_decreasing rnd n z kf" and "k \<le> n"
  shows "\<exists>a b. kalman_feed rnd k z kf = Inr a \<and> kalman_feed rnd n z kf = Inr b
           \<and> kf_P b \<le> kf_P a"
  using assms
proof (induction n arbitrary: kf k)
  case 0
  then show ?case by simp
next
  case (Suc n)
  from Suc.prems(1) obtain y kf1 where u: "kalman_update rnd kf z = Inr (y, kf1)"
    and lt: "kf_P kf1 < kf_P kf" and d: "kalman_decreasing rnd n z kf1"
    by (auto split: sum.splits)
  show ?case
  proof (cases k)
    case 0
    from Suc.IH [OF d, of 0] obtain b where "kalman_feed rnd n z kf1 = Inr b" "kf_P b \<le> kf_P kf1"
      by auto
    then show ?thesis using u lt 0 by auto
  next
    case (Suc k')
    with Suc.prems(2) have "k' \<le> n" by simp
    from Suc.IH [OF d this] show ?thesis using u Suc by simp
  qed
qed

lemma kalman_feed_rest:
  assumes "kalman_update rnd kf z = Inr (y, kf)"
  shows "kalman_feed rnd n z kf = Inr kf"
  using assms by (induction n) simp_all

lemma kalman_feed_numeral:
  "kalman_feed rnd (numeral k) z kf =
     (case kalman_update rnd kf z of
        Inl e \<Rightarrow> Inl e
      | Inr (y, kf') \<Rightarrow> kalman_feed rnd (pred_numeral k) z kf')"
  by (simp add: numeral_eq_Suc)

lemma kalman_decreasing_numeral:
  "kalman_decreasing rnd (numeral k) z kf =
     (case kalman_update rnd kf z of
        Inl e \<Rightarrow> False
      | Inr (y, kf') \<Rightarrow> kf_P kf' < kf_P kf \<and> kalman_decreasing rnd (pred_numeral k) z kf')"
  by (simp add: numeral_eq_Suc)

subsection \<open>The run of the convergence property\<close>

text \<open>The first observation sets \<open>x\<close> and leaves \<open>P\<close> at the float \<open>0.1\<close>.\<close>

lemma kalman_first_observation:
  "kalman_feed round_double 1 100 kalman_claim_filter =
     Inr \<lparr>kf_Q = 5764607523034235 / 576460752303423488,
          kf_R = 3602879701896397 / 36028797018963968,
          kf_x = Some 100, kf_P = 3602879701896397 / 36028797018963968\<rparr>"
  by (simp add: kalman_claim_filter_def new_KalmanFilter_def kalman_update_def double_eval
      cong: let_weak_cong)

text \<open>The next 59 observations each lower \<open>P\<close>, and they lead to a state that a further
  observation maps to itself.\<close>

lemma kalman_next_59:
  "kalman_feed round_double 59 100
     \<lparr>kf_Q = 5764607523034235 / 576460752303423488,
      kf_R = 3602879701896397 / 36028797018963968,
      kf_x = Some 100, kf_P = 3602879701896397 / 36028797018963968\<rparr>
   = Inr \<lparr>kf_Q = 5764607523034235 / 576460752303423488,
      kf_R = 3602879701896397 / 36028797018963968,
      kf_x = Some 100, kf_P = 7786722656748503 / 288230376151711744\<rparr>"
  by (simp add: kalman_feed_numeral kalman_update_def double_eval cong: let_weak_cong)

lemma kalman_next_59_decreasing:
  "kalman_decreasing round_double 59 100
     \<lparr>kf_Q = 5764607523034235 / 576460752303423488,
      kf_R = 3602879701896397 / 36028797018963968,
      kf_x = Some 100, kf_P = 3602879701896397 / 36028797018963968\<rparr>"
  by (simp add: kalman_decreasing_numeral kalman_update_def double_eval cong: let_weak_cong)

lemma kalman_rest_state:
  "kalman_update round_double
     \<lparr>kf_Q = 5764607523034235 / 576460752303423488,
      kf_R = 3602879701896397 / 36028797018963968,
      kf_x = Some 100, kf_P = 7786722656748503 / 288230376151711744\<rparr> 100
   = Inr (100,
     \<lparr>kf_Q = 5764607523034235 / 576460752303423488,
      kf_R = 3602879701896397 / 36028797018963968,
      kf_x = Some 100, kf_P = 7786722656748503 / 288230376151711744\<rparr>)"
  by (simp add: kalman_update_def double_eval cong: let_weak_cong)

lemma kalman_claim_filter_P:
  "kf_P kalman_claim_filter = 3602879701896397 / 36028797018963968"
  by (simp add: kalman_claim_filter_def new_KalmanFilter_def double_eval cong: let_weak_cong)

lemma kalman_claim_run:
  "kalman_feed round_double (Suc m) 100 kalman_claim_filter =
     kalman_feed round_double m 100
       \<lparr>kf_Q = 5764607523034235 / 576460752303423488,
      kf_R = 3602879701896397 / 36028797018963968,
      kf_x = Some 100, kf_P = 3602879701896397 / 36028797018963968\<rparr>"
proof -
  have "kalman_feed round_double (1 + m) 100 kalman_claim_filter =
      (case kalman_feed round_double 1 100 kalman_claim_filter of
         Inl e \<Rightarrow> Inl e
       | Inr kf' \<Rightarrow> kalman_feed round_double m 100 kf')"
    by (rule kalman_feed_add)
  then show ?thesis
    unfolding kalman_first_observation by (simp only: sum.case plus_1_eq_Suc)
qed

lemma kalman_claim_run_late:
  assumes "59 \<le> m"
  shows "kalman_feed round_double m 100
       \<lparr>kf_Q = 5764607523034235 / 576460752303423488,
      kf_R = 3602879701896397 / 36028797018963968,
      kf_x = Some 100, kf_P = 3602879701896397 / 36028797018963968\<rparr>
     = Inr \<lparr>kf_Q = 5764607523034235 / 576460752303423488,
      kf_R = 3602879701896397 / 36028797018963968,
      kf_x = Some 100, kf_P = 7786722656748503 / 288230376151711744\<rparr>"
proof -
  have "kalman_feed round_double (59 + (m - 59)) 100
       \<lparr>kf_Q = 5764607523034235 / 576460752303423488,
      kf_R = 3602879701896397 / 36028797018963968,
      kf_x = Some 100, kf_P = 3602879701896397 / 36028797018963968\<rparr>
     = Inr \<lparr>kf_Q = 5764607523034235 / 576460752303423488,
      kf_R = 3602879701896397 / 36028797018963968,
      kf_x = Some 100, kf_P = 7786722656748503 / 288230376151711744\<rparr>"
    unfolding kalman_feed_add kalman_next_59
    using kalman_feed_rest [OF kalman_rest_state] by simp
  then show ?thesis using assms by simp
qed

text \<open>
  Claim C6, as stated, fails in the arithmetic of Python floats: the 61st observation (the
  60th update after the first observation) leaves \<open>P\<close> exactly where the 60th observation
  left it, so \<open>P\<close> does not decrease strictly on every update.
\<close>

theorem kalman_P_stalls_counterexample:
  "map_sum id kf_P (kalman_feed round_double 60 100 kalman_claim_filter)
     = Inr (7786722656748503 / 288230376151711744)
   \<and> map_sum id kf_P (kalman_feed round_double 61 100 kalman_claim_filter)
     = Inr (7786722656748503 / 288230376151711744)"
proof -
  have "kalman_feed round_double (Suc 59) 100 kalman_claim_filter = Inr \<lparr>kf_Q = 5764607523034235 / 576460752303423488,
      kf_R = 3602879701896397 / 36028797018963968,
      kf_x = Some 100, kf_P = 7786722656748503 / 288230376151711744\<rparr>"
    unfolding kalman_claim_run by (rule kalman_claim_run_late) simp
  moreover have "kalman_feed round_double (Suc 60) 100 kalman_claim_filter = Inr \<lparr>kf_Q = 5764607523034235 / 576460752303423488,
      kf_R = 3602879701896397 / 36028797018963968,
      kf_x = Some 100, kf_P = 7786722656748503 / 288230376151711744\<rparr>"
    unfolding kalman_claim_run by (rule kalman_claim_run_late) simp
  ultimately show ?thesis by simp
qed

text \<open>
  Claim C6, amended.  The filter has \<open>Q = 0.01\<close>, \<open>R = 0.1\<close> and \<open>P = 0.1\<close>, and the
  observation \<open>z = 100\<close> is fed again and again, in the arithmetic of Python floats.  Every
  observation returns; after it the estimate \<open>x\<close> is exactly 100 and \<open>P\<close> is positive.
  The first observation leaves \<open>P\<close> unchanged.  Each of the observations 2 to 60 leaves
  \<open>P\<close> strictly smaller than before.  From the 60th observation on, \<open>P\<close> stays at the
  float \<open>7786722656748503 / 2 ^ 58\<close> (about 0.0270156).  Here \<open>n\<close> counts observations.
\<close>

theorem kalman_constant_observation:
  "(\<exists>kf. kalman_feed round_double (Suc n) 100 kalman_claim_filter = Inr kf
       \<and> kf_x kf = Some 100 \<and> 0 < kf_P kf)
   \<and> map_sum id kf_P (kalman_feed round_double 1 100 kalman_claim_filter)
       = Inr (kf_P kalman_claim_filter)
   \<and> (1 \<le> n \<and> n < 60 \<longrightarrow>
        (\<exists>a b. kalman_feed round_double n 100 kalman_claim_filter = Inr a
           \<and> kalman_feed round_double (Suc n) 100 kalman_claim_filter = Inr b
           \<and> kf_P b < kf_P a))
   \<and> (60 \<le> n \<longrightarrow>
        map_sum id kf_P (kalman_feed round_double n 100 kalman_claim_filter)
          = Inr (7786722656748503 / 288230376151711744))"
proof (intro conjI impI)
  define s1 where "s1 = \<lparr>kf_Q = 5764607523034235 / 576460752303423488,
      kf_R = 3602879701896397 / 36028797018963968,
      kf_x = Some 100, kf_P = 3602879701896397 / 36028797018963968\<rparr>"
  define rest where "rest = \<lparr>kf_Q = 5764607523034235 / 576460752303423488,
      kf_R = 3602879701896397 / 36028797018963968,
      kf_x = Some 100, kf_P = 7786722656748503 / 288230376151711744\<rparr>"
  have x1: "kf_x s1 = Some 100" by (simp add: s1_def)
  have dec: "kalman_decreasing round_double 59 100 s1"
    unfolding s1_def by (rule kalman_next_59_decreasing)
  have f59: "kalman_feed round_double 59 100 s1 = Inr rest"
    unfolding s1_def rest_def by (rule kalman_next_59)
  have run: "\<And>m. kalman_feed round_double (Suc m) 100 kalman_claim_filter
      = kalman_feed round_double m 100 s1"
    unfolding s1_def by (rule kalman_claim_run)
  have late: "\<And>m. 59 \<le> m \<Longrightarrow> kalman_feed round_double m 100 s1 = Inr rest"
    unfolding s1_def rest_def by (rule kalman_claim_run_late)
  show "\<exists>kf. kalman_feed round_double (Suc n) 100 kalman_claim_filter = Inr kf
       \<and> kf_x kf = Some 100 \<and> 0 < kf_P kf"
  proof (cases "n \<le> 59")
    case True
    from kalman_decreasing_chain [OF dec True] f59
    obtain a where a: "kalman_feed round_double n 100 s1 = Inr a" and "kf_P rest \<le> kf_P a"
      by auto
    moreover have "0 < kf_P rest" by (simp add: rest_def)
    moreover have "kf_x a = Some 100" using x1 a by (rule kalman_feed_keeps_x)
    ultimately show ?thesis unfolding run by auto
  next
    case False
    then have "kalman_feed round_double n 100 s1 = Inr rest" by (intro late) simp
    then show ?thesis unfolding run by (simp add: rest_def)
  qed
  show "map_sum id kf_P (kalman_feed round_double 1 100 kalman_claim_filter)
       = Inr (kf_P kalman_claim_filter)"
    by (simp only: kalman_first_observation kalman_claim_filter_P)
      simp
  show "\<exists>a b. kalman_feed round_double n 100 kalman_claim_filter = Inr a
           \<and> kalman_feed round_double (Suc n) 100 kalman_claim_filter = Inr b
           \<and> kf_P b < kf_P a" if "1 \<le> n \<and> n < 60"
  proof -
    from that obtain k where n: "n = Suc k" and k: "k < 59" by (cases n) auto
    from kalman_decreasing_step [OF dec k] show ?thesis unfolding n run .
  qed
  show "map_sum id kf_P (kalman_feed round_double n 100 kalman_claim_filter)
          = Inr (7786722656748503 / 288230376151711744)" if "60 \<le> n"
  proof -
    from that obtain m where n: "n = Suc m" and m: "59 \<le> m" by (cases n) auto
    show ?thesis unfolding n run late [OF m] by (simp add: rest_def)
  qed
qed

theorem kalman_constant_observation_witness:
  "(\<exists>a b. kalman_feed round_double 2 100 kalman_claim_filter = Inr a
       \<and> kalman_feed round_double (Suc 2) 100 kalman_claim_filter = Inr b
       \<and> kf_P b < kf_P a)
   \<and> map_sum id kf_P (kalman_feed round_double 60 100 kalman_claim_filter)
       = Inr (7786722656748503 / 288230376151711744)"
proof -
  have "(1::nat) \<le> 2 \<and> (2::nat) < 60" by simp
  from kalman_constant_observation [of 2, THEN conjunct2, THEN conjunct2, THEN conjunct1,
      rule_format, OF this]
  have a: "\<exists>a b. kalman_feed round_double 2 100 kalman_claim_filter = Inr a
       \<and> kalman_feed round_double (Suc 2) 100 kalman_claim_filter = Inr b
       \<and> kf_P b < kf_P a" .
  have "(60::nat) \<le> 60" by simp
  from kalman_constant_observation [of 60, THEN conjunct2, THEN conjunct2, THEN conjunct2,
      rule_format, OF this]
  have "map_sum id kf_P (kalman_feed round_double 60 100 kalman_claim_filter)
       = Inr (7786722656748503 / 288230376151711744)" .
  with a show ?thesis by (rule conjI)
qed

subsection \<open>The same run in exact arithmetic\<close>

text \<open>Without rounding the property of the specification holds as it is written: with
  \<open>rnd = (\<lambda>x. x)\<close> every update after the first observation lowers \<open>P\<close>, which stays
  positive.  The invariant is \<open>P\<^sup>2 + Q P > R Q\<close>, which says that \<open>P\<close> lies above the fixed
  point of the recurrence.\<close>

lemma exact_P_step:
  fixes P :: rat
  assumes pos: "0 < P" and g: "1 / 1000 < P * P + P / 100"
  defines "P' \<equiv> (1 - (P + 1 / 100) / (P + 1 / 100 + 1 / 10)) * (P + 1 / 100)"
  shows "P' < P" and "0 < P'" and "1 / 1000 < P' * P' + P' / 100"
proof -
  define a where "a = P + 1 / 100"
  define D where "D = a + 1 / 10"
  define G where "G = P * P + P / 100 - 1 / 1000"
  have G: "0 < G" using g by (simp add: G_def)
  have a: "0 < a" using pos by (simp add: a_def)
  have D: "0 < D" using a by (simp add: D_def)
  have "P' = (1 - a / D) * a" by (simp add: P'_def a_def D_def)
  also have "1 - a / D = (1 / 10) / D" using D by (simp add: field_simps D_def)
  finally have eq: "P' = a / (10 * D)" by simp
  show "0 < P'" unfolding eq using a D by simp
  have "P * (10 * D) - a = 10 * G" by (simp add: a_def D_def G_def algebra_simps)
  then have "a < P * (10 * D)" using G by linarith
  then show "P' < P" unfolding eq using D by (simp add: pos_divide_less_eq)
  have "10 * (a * a) + a * D - D * D = 10 * G" by (simp add: a_def D_def G_def algebra_simps)
  then have k: "D * D < 10 * (a * a) + a * D" using G by linarith
  have v: "P' * P' + P' / 100 = (10 * (a * a) + a * D) / (1000 * (D * D))"
    unfolding eq using D by (simp add: field_simps)
  have "1 / 1000 < (10 * (a * a) + a * D) / (1000 * (D * D))"
    using k D by (simp add: pos_less_divide_eq)
  then show "1 / 1000 < P' * P' + P' / 100" unfolding v .
qed

lemma exact_update:
  assumes q: "kf_Q kf = 1 / 100" and r: "kf_R kf = 1 / 10" and x: "kf_x kf = Some 100"
    and pos: "0 < kf_P kf" and g: "1 / 1000 < kf_P kf * kf_P kf + kf_P kf / 100"
  shows "\<exists>kf'. kalman_update (\<lambda>x. x) kf 100 = Inr (100, kf')
      \<and> kf_Q kf' = 1 / 100 \<and> kf_R kf' = 1 / 10 \<and> kf_x kf' = Some 100
      \<and> 0 < kf_P kf' \<and> 1 / 1000 < kf_P kf' * kf_P kf' + kf_P kf' / 100
      \<and> kf_P kf' < kf_P kf"
proof -
  define P' where
    "P' = (1 - (kf_P kf + 1 / 100) / (kf_P kf + 1 / 100 + 1 / 10)) * (kf_P kf + 1 / 100)"
  have ne: "kf_P kf + 1 / 100 + 1 / 10 \<noteq> 0" using pos by simp
  have u: "kalman_update (\<lambda>x. x) kf 100 = Inr (100, kf\<lparr>kf_x := Some 100, kf_P := P'\<rparr>)"
    unfolding kalman_update_def Let_def q r x P'_def using ne by simp
  note st = exact_P_step [OF pos g, folded P'_def]
  show ?thesis
    unfolding u using st q r by simp
qed

lemma exact_feed:
  assumes "kf_Q kf = 1 / 100" "kf_R kf = 1 / 10" "kf_x kf = Some 100"
    and "0 < kf_P kf" and "1 / 1000 < kf_P kf * kf_P kf + kf_P kf / 100"
  shows "\<exists>kf'. kalman_feed (\<lambda>x. x) n 100 kf = Inr kf'
      \<and> kf_Q kf' = 1 / 100 \<and> kf_R kf' = 1 / 10 \<and> kf_x kf' = Some 100
      \<and> 0 < kf_P kf' \<and> 1 / 1000 < kf_P kf' * kf_P kf' + kf_P kf' / 100"
  using assms
proof (induction n arbitrary: kf)
  case 0
  then show ?case by simp
next
  case (Suc n)
  from exact_update [OF Suc.prems] obtain kf1 where
    u: "kalman_update (\<lambda>x. x) kf 100 = Inr (100, kf1)"
    and i: "kf_Q kf1 = 1 / 100" "kf_R kf1 = 1 / 10" "kf_x kf1 = Some 100"
       "0 < kf_P kf1" "1 / 1000 < kf_P kf1 * kf_P kf1 + kf_P kf1 / 100"
    by blast
  from Suc.IH [OF i] show ?case using u by simp
qed

lemma kalman_exact_arithmetic:
  "\<exists>a b. kalman_feed (\<lambda>x. x) (Suc n) 100 (new_KalmanFilter (\<lambda>x. x) (1 / 100) (1 / 10)) = Inr a
     \<and> kalman_feed (\<lambda>x. x) (Suc (Suc n)) 100 (new_KalmanFilter (\<lambda>x. x) (1 / 100) (1 / 10)) = Inr b
     \<and> kf_x a = Some 100 \<and> kf_x b = Some 100 \<and> kf_P b < kf_P a \<and> 0 < kf_P b"
proof -
  let ?kf0 = "new_KalmanFilter (\<lambda>x. x) (1 / 100) (1 / 10)"
  let ?s1 = "?kf0\<lparr>kf_x := Some 100\<rparr>"
  have first: "kalman_update (\<lambda>x. x) ?kf0 100 = Inr (100, ?s1)"
    by (simp add: kalman_update_def new_KalmanFilter_def)
  have s1: "kf_Q ?s1 = 1 / 100" "kf_R ?s1 = 1 / 10" "kf_x ?s1 = Some 100"
    "0 < kf_P ?s1" "1 / 1000 < kf_P ?s1 * kf_P ?s1 + kf_P ?s1 / 100"
    by (simp_all add: new_KalmanFilter_def)
  from exact_feed [OF s1, of n] obtain a where
    a: "kalman_feed (\<lambda>x. x) n 100 ?s1 = Inr a"
    and i: "kf_Q a = 1 / 100" "kf_R a = 1 / 10" "kf_x a = Some 100"
       "0 < kf_P a" "1 / 1000 < kf_P a * kf_P a + kf_P a / 100"
    by blast
  from exact_update [OF i] obtain b where
    b: "kalman_update (\<lambda>x. x) a 100 = Inr (100, b)" and xb: "kf_x b = Some 100"
    and pb: "0 < kf_P b" and lt: "kf_P b < kf_P a"
    by blast
  have fa: "kalman_feed (\<lambda>x. x) (Suc n) 100 ?kf0 = Inr a" using first a by simp
  have "kalman_feed (\<lambda>x. x) (Suc n + 1) 100 ?kf0 = Inr b"
    unfolding kalman_feed_add fa using b by simp
  then have fb: "kalman_feed (\<lambda>x. x) (Suc (Suc n)) 100 ?kf0 = Inr b" by simp
  show ?thesis using fa fb i(3) xb lt pb by blast
qed

end
